theory Spec2Isabelle
  imports Complex_Main
begin

section \<open>JavaScript values as the receipt pipeline sees them\<close>

text \<open>
  The server action \<^verbatim>\<open>scanReceipt\<close> (src/actions/transaction.js) works on the
  object returned by \<^verbatim>\<open>JSON.parse\<close>; its fields are dynamically typed. A number is a
  rational (the rounding of IEEE doubles is not modelled), an infinity or NaN.
  An array or a nested object is represented by the string its conversion to a
  primitive yields (the joined elements of an array, \<^verbatim>\<open>[object Object]\<close> for a
  plain object): truthiness, comparison, \<^verbatim>\<open>parseFloat\<close> and \<^verbatim>\<open>RegExp.test\<close> see
  nothing else of it.
\<close>

datatype jsnum = Fin rat | PosInf | NegInf | NaN

datatype jsval =
    JUndefined
  | JNull
  | JBool bool
  | JNum jsnum
  | JStr string
  | JObject string

text \<open>An object maps property names to values; an absent property reads as \<^verbatim>\<open>undefined\<close>.\<close>

type_synonym jsobj = "string \<Rightarrow> jsval"

definition empty_obj :: jsobj where
  "empty_obj = (\<lambda>_. JUndefined)"

text \<open>\<^verbatim>\<open>!x\<close> is the negation of this.\<close>

fun truthy :: "jsval \<Rightarrow> bool" where
  "truthy JUndefined = False"
| "truthy JNull = False"
| "truthy (JBool b) = b"
| "truthy (JNum n) = (n \<noteq> Fin 0 \<and> n \<noteq> NaN)"
| "truthy (JStr s) = (s \<noteq> [])"
| "truthy (JObject s) = True"

subsection \<open>Strings to numbers\<close>

text \<open>White space and digits, on ASCII (a \<^typ>\<open>char\<close> is a byte).\<close>

definition is_ws :: "char \<Rightarrow> bool" where
  "is_ws c = (c \<in> set [CHR 0x09, CHR 0x0A, CHR 0x0B, CHR 0x0C, CHR 0x0D, CHR '' ''])"

definition is_digit :: "char \<Rightarrow> bool" where
  "is_digit c = (c \<in> set ''0123456789'')"

definition js_trim :: "string \<Rightarrow> string" where
  "js_trim s = rev (dropWhile is_ws (rev (dropWhile is_ws s)))"

definition radix_digit :: "char \<Rightarrow> nat option" where
  "radix_digit c =
     (let n = (of_char c :: nat) in
      if 48 \<le> n \<and> n \<le> 57 then Some (n - 48)
      else if 97 \<le> n \<and> n \<le> 102 then Some (n - 87)
      else if 65 \<le> n \<and> n \<le> 70 then Some (n - 55)
      else None)"

definition digits_value :: "nat \<Rightarrow> string \<Rightarrow> nat" where
  "digits_value b ds = foldl (\<lambda>acc c. b * acc + (case radix_digit c of None \<Rightarrow> 0 | Some d \<Rightarrow> d)) 0 ds"

definition pow10 :: "int \<Rightarrow> rat" where
  "pow10 e = (if 0 \<le> e then 10 ^ nat e else 1 / 10 ^ nat (- e))"

fun js_neg :: "jsnum \<Rightarrow> jsnum" where
  "js_neg (Fin r) = Fin (- r)"
| "js_neg PosInf = NegInf"
| "js_neg NegInf = PosInf"
| "js_neg NaN = NaN"

text \<open>
  The exponent part of a decimal literal, \<^verbatim>\<open>[eE][+-]?[0-9]+\<close>: the exponent read and the
  rest of the string, or exponent 0 and the whole string when there is none.
\<close>

definition scan_exponent :: "string \<Rightarrow> int \<times> string" where
  "scan_exponent s =
     (case s of
        [] \<Rightarrow> (0, s)
      | c # r \<Rightarrow>
          if c = CHR ''e'' \<or> c = CHR ''E'' then
            (let neg = (r \<noteq> [] \<and> hd r = CHR ''-'');
                 r1 = (if r \<noteq> [] \<and> (hd r = CHR ''-'' \<or> hd r = CHR ''+'') then tl r else r);
                 ds = takeWhile is_digit r1
             in if ds = [] then (0, s)
                else (if neg then - int (digits_value 10 ds) else int (digits_value 10 ds),
                      dropWhile is_digit r1))
          else (0, s))"

text \<open>
  The longest prefix that is a \<^verbatim>\<open>StrUnsignedDecimalLiteral\<close> of ECMAScript
  (\<^verbatim>\<open>Infinity\<close>, or digits with an optional fraction and exponent), with its value and
  the rest of the string.
\<close>

definition scan_unsigned :: "string \<Rightarrow> (jsnum \<times> string) option" where
  "scan_unsigned s =
     (if take 8 s = ''Infinity'' then Some (PosInf, drop 8 s)
      else
        let ip = takeWhile is_digit s;
            r1 = dropWhile is_digit s;
            fp = (if r1 \<noteq> [] \<and> hd r1 = CHR ''.'' then takeWhile is_digit (tl r1) else []);
            dot = (r1 \<noteq> [] \<and> hd r1 = CHR ''.'' \<and> (ip \<noteq> [] \<or> fp \<noteq> []));
            r2 = (if dot then dropWhile is_digit (tl r1) else r1)
        in if ip = [] \<and> fp = [] then None
           else Some (Fin (of_nat (digits_value 10 (ip @ fp)) / 10 ^ length fp
                           * pow10 (fst (scan_exponent r2))),
                      snd (scan_exponent r2)))"

definition scan_decimal :: "string \<Rightarrow> (jsnum \<times> string) option" where
  "scan_decimal s =
     (if s \<noteq> [] \<and> hd s = CHR ''-'' then map_option (\<lambda>(v, t). (js_neg v, t)) (scan_unsigned (tl s))
      else if s \<noteq> [] \<and> hd s = CHR ''+'' then scan_unsigned (tl s)
      else scan_unsigned s)"

text \<open>\<^verbatim>\<open>parseFloat\<close> on a string: leading white space is skipped, trailing text ignored.\<close>

definition parseFloat_str :: "string \<Rightarrow> jsnum" where
  "parseFloat_str s =
     (case scan_decimal (dropWhile is_ws s) of None \<Rightarrow> NaN | Some (v, _) \<Rightarrow> v)"

text \<open>A literal \<^verbatim>\<open>0x..\<close>, \<^verbatim>\<open>0o..\<close> or \<^verbatim>\<open>0b..\<close> of the given radix.\<close>

definition radix_literal :: "nat \<Rightarrow> string \<Rightarrow> jsnum" where
  "radix_literal b ds =
     (if ds \<noteq> [] \<and> list_all (\<lambda>c. case radix_digit c of None \<Rightarrow> False | Some d \<Rightarrow> d < b) ds
      then Fin (of_nat (digits_value b ds)) else NaN)"

text \<open>
  \<^verbatim>\<open>Number(s)\<close>, the conversion a comparison applies to a string: the whole trimmed
  string must be a numeric literal, and the empty string is 0.
\<close>

definition string_to_number :: "string \<Rightarrow> jsnum" where
  "string_to_number s =
     (let t = js_trim s in
      if t = [] then Fin 0
      else if take 2 t = ''0x'' \<or> take 2 t = ''0X'' then radix_literal 16 (drop 2 t)
      else if take 2 t = ''0o'' \<or> take 2 t = ''0O'' then radix_literal 8 (drop 2 t)
      else if take 2 t = ''0b'' \<or> take 2 t = ''0B'' then radix_literal 2 (drop 2 t)
      else (case scan_decimal t of
              Some (v, []) \<Rightarrow> v
            | _ \<Rightarrow> NaN))"

text \<open>\<^verbatim>\<open>Number(x)\<close> and \<^verbatim>\<open>parseFloat(x)\<close> on any value.\<close>

fun to_number :: "jsval \<Rightarrow> jsnum" where
  "to_number JUndefined = NaN"
| "to_number JNull = Fin 0"
| "to_number (JBool b) = Fin (if b then 1 else 0)"
| "to_number (JNum n) = n"
| "to_number (JStr s) = string_to_number s"
| "to_number (JObject s) = string_to_number s"

text \<open>
  \<^verbatim>\<open>parseFloat\<close> converts its argument to a string first. The strings
  \<^verbatim>\<open>undefined\<close>, \<^verbatim>\<open>null\<close>, \<^verbatim>\<open>true\<close> and \<^verbatim>\<open>false\<close> start no decimal literal; the string
  of a number parses back to that number.
\<close>

fun parseFloat :: "jsval \<Rightarrow> jsnum" where
  "parseFloat JUndefined = NaN"
| "parseFloat JNull = NaN"
| "parseFloat (JBool b) = NaN"
| "parseFloat (JNum n) = n"
| "parseFloat (JStr s) = parseFloat_str s"
| "parseFloat (JObject s) = parseFloat_str s"

text \<open>\<^verbatim>\<open>x <= 0\<close> and \<^verbatim>\<open>x > 0\<close>: both are false on NaN.\<close>

fun num_le_zero :: "jsnum \<Rightarrow> bool" where
  "num_le_zero (Fin r) = (r \<le> 0)"
| "num_le_zero PosInf = False"
| "num_le_zero NegInf = True"
| "num_le_zero NaN = False"

fun num_gt_zero :: "jsnum \<Rightarrow> bool" where
  "num_gt_zero (Fin r) = (0 < r)"
| "num_gt_zero PosInf = True"
| "num_gt_zero NegInf = False"
| "num_gt_zero NaN = False"

definition js_le_zero :: "jsval \<Rightarrow> bool" where
  "js_le_zero v = num_le_zero (to_number v)"

subsection \<open>The date pattern\<close>

text \<open>
  \<^verbatim>\<open>/^\d{4}-\d{2}-\d{2}$/\<close> on a string: exactly ten characters, digits and two hyphens
  (without the \<^verbatim>\<open>m\<close> flag, \<^verbatim>\<open>$\<close> is the end of the input).
\<close>

definition dateRegex_matches :: "string \<Rightarrow> bool" where
  "dateRegex_matches s =
     (case s of
        [y1, y2, y3, y4, h1, m1, m2, h2, d1, d2] \<Rightarrow>
          is_digit y1 \<and> is_digit y2 \<and> is_digit y3 \<and> is_digit y4 \<and> h1 = CHR ''-'' \<and>
          is_digit m1 \<and> is_digit m2 \<and> h2 = CHR ''-'' \<and> is_digit d1 \<and> is_digit d2
      | _ \<Rightarrow> False)"

text \<open>
  \<^verbatim>\<open>dateRegex.test(x)\<close> converts \<^verbatim>\<open>x\<close> to a string. The string of a number has a
  hyphen only in front or after an \<^verbatim>\<open>e\<close>, so it never matches; neither do
  \<^verbatim>\<open>undefined\<close>, \<^verbatim>\<open>null\<close>, \<^verbatim>\<open>true\<close> and \<^verbatim>\<open>false\<close>.
\<close>

fun dateRegex_test :: "jsval \<Rightarrow> bool" where
  "dateRegex_test (JStr s) = dateRegex_matches s"
| "dateRegex_test (JObject s) = dateRegex_matches s"
| "dateRegex_test _ = False"

section \<open>scanReceipt: validation and normalisation of the parsed response\<close>

text \<open>
  The part of \<^verbatim>\<open>scanReceipt\<close> after \<^verbatim>\<open>JSON.parse\<close> has returned an object. Each
  \<^verbatim>\<open>throw\<close> is an error value (the enclosing \<^verbatim>\<open>catch\<close> rethrows it with the prefix
  \<^verbatim>\<open>Failed to scan receipt:\<close>). \<^verbatim>\<open>today\<close> is
  \<^verbatim>\<open>new Date().toISOString().split('T')[0]\<close>.
\<close>

datatype scan_error =
    CouldNotExtractAmount   \<comment> \<open>\<^verbatim>\<open>Could not extract amount from receipt\<close>\<close>
  | InvalidAmount           \<comment> \<open>\<^verbatim>\<open>Invalid amount in receipt\<close>\<close>

definition scanReceipt_normalize :: "string \<Rightarrow> jsobj \<Rightarrow> scan_error + jsobj" where
  "scanReceipt_normalize today parsedData =
     (if \<not> truthy (parsedData ''amount'') \<or> js_le_zero (parsedData ''amount'')
      then Inl CouldNotExtractAmount
      else
        let p1 = parsedData(''amount'' := JNum (parseFloat (parsedData ''amount''))) in
        if p1 ''amount'' = JNum NaN then Inl InvalidAmount
        else
          let p2 = (if \<not> truthy (p1 ''date'') \<or> p1 ''date'' = JStr ''''
                    then p1(''date'' := JStr today) else p1);
              p3 = (if \<not> dateRegex_test (p2 ''date'')
                    then p2(''date'' := JStr today) else p2);
              p4 = (if \<not> truthy (p3 ''description'') \<or> p3 ''description'' = JStr ''''
                    then p3(''description'' := JStr ''Receipt Transaction'') else p3);
              p5 = p4(''category'' :=
                        (if truthy (p4 ''category'') then p4 ''category'' else JStr ''''))
          in Inr p5)"

text \<open>Reading one field of the outcome: \<^term>\<open>None\<close> when the scan failed.\<close>

definition result_field :: "string \<Rightarrow> scan_error + jsobj \<Rightarrow> jsval option" where
  "result_field k r = (case r of Inl _ \<Rightarrow> None | Inr d \<Rightarrow> Some (d k))"

section \<open>Calendar dates and recurrence\<close>

text \<open>
  A \<^verbatim>\<open>Date\<close> as the local calendar date it shows: \<^verbatim>\<open>getFullYear()\<close>, \<^verbatim>\<open>getMonth()\<close>
  (0 for January to 11 for December) and \<^verbatim>\<open>getDate()\<close>. The setters used by
  \<^verbatim>\<open>calculateNextRecurringDate\<close> keep the time of day, which is left out.
\<close>

record jsdate =
  year :: int
  month :: nat
  day :: nat

definition is_leap :: "int \<Rightarrow> bool" where
  "is_leap y = (y mod 4 = 0 \<and> (y mod 100 \<noteq> 0 \<or> y mod 400 = 0))"

definition days_in_month :: "int \<Rightarrow> nat \<Rightarrow> nat" where
  "days_in_month y m =
     (if m = 1 then (if is_leap y then 29 else 28)
      else if m = 3 \<or> m = 5 \<or> m = 8 \<or> m = 10 then 30
      else 31)"

definition valid_date :: "jsdate \<Rightarrow> bool" where
  "valid_date d = (month d < 12 \<and> 1 \<le> day d \<and> day d \<le> days_in_month (year d) (month d))"

text \<open>
  What \<^verbatim>\<open>setDate\<close>, \<^verbatim>\<open>setMonth\<close> and \<^verbatim>\<open>setFullYear\<close> make of a year, a month index that may
  exceed 11 and a day that may exceed the length of the month (ECMAScript's \<^verbatim>\<open>MakeDay\<close>, read
  back as a calendar date): the excess is carried into the following months and years.
  The day is at least 1 in every call made here.
\<close>

function make_date :: "int \<Rightarrow> nat \<Rightarrow> nat \<Rightarrow> jsdate" where
  "make_date y m d =
     (if 12 \<le> m then make_date (y + 1) (m - 12) d
      else if days_in_month y m < d then make_date y (m + 1) (d - days_in_month y m)
      else \<lparr>year = y, month = m, day = d\<rparr>)"
  by pat_completeness auto
termination
  by (relation "measure (\<lambda>(y, m, d). 2 * d + m)") (auto simp: days_in_month_def)

text \<open>The helper at the end of src/actions/transaction.js; an interval the \<^verbatim>\<open>switch\<close> does
  not list leaves the date as it is.\<close>

definition calculateNextRecurringDate :: "jsdate \<Rightarrow> string \<Rightarrow> jsdate" where
  "calculateNextRecurringDate startDate interval =
     (if interval = ''DAILY'' then make_date (year startDate) (month startDate) (day startDate + 1)
      else if interval = ''WEEKLY'' then make_date (year startDate) (month startDate) (day startDate + 7)
      else if interval = ''MONTHLY'' then make_date (year startDate) (month startDate + 1) (day startDate)
      else if interval = ''YEARLY'' then make_date (year startDate + 1) (month startDate) (day startDate)
      else startDate)"

text \<open>Days since 1 January of year 0 (proleptic Gregorian), to measure distances between dates.\<close>

primrec days_before_month :: "int \<Rightarrow> nat \<Rightarrow> nat" where
  "days_before_month y 0 = 0"
| "days_before_month y (Suc m) = days_before_month y m + days_in_month y m"

definition days_before_year :: "int \<Rightarrow> int" where
  "days_before_year y = 365 * y + (y + 3) div 4 - (y + 99) div 100 + (y + 399) div 400"

definition day_number :: "jsdate \<Rightarrow> int" where
  "day_number d = days_before_year (year d) + int (days_before_month (year d) (month d)) + int (day d)"

definition year_length :: "int \<Rightarrow> nat" where
  "year_length y = (if is_leap y then 366 else 365)"

text \<open>Calendar order.\<close>

definition date_before :: "jsdate \<Rightarrow> jsdate \<Rightarrow> bool" where
  "date_before a b =
     (year a < year b \<or>
      (year a = year b \<and> (month a < month b \<or> (month a = month b \<and> day a < day b))))"

section \<open>The balance ledger: createTransaction and updateTransaction\<close>

datatype tx_type = INCOME | EXPENSE

text \<open>The object the form submits (\<^verbatim>\<open>data\<close>); amounts and balances are exact rationals.\<close>

record tx_data =
  d_type :: tx_type
  d_amount :: rat
  d_description :: string
  d_accountId :: string
  d_category :: string
  d_date :: jsdate
  d_isRecurring :: bool
  d_recurringInterval :: "string option"

text \<open>A stored transaction: \<^verbatim>\<open>{...data, userId, nextRecurringDate}\<close>, under its id.\<close>

record transaction =
  tdata :: tx_data
  t_userId :: string
  nextRecurringDate :: "jsdate option"

record account =
  a_userId :: string
  balance :: rat

record db =
  users :: "string \<rightharpoonup> string"
  accounts :: "string \<rightharpoonup> account"
  transactions :: "string \<rightharpoonup> transaction"

datatype tx_error =
    Unauthorized
  | TooManyRequests
  | RequestBlocked
  | UserNotFound
  | AccountNotFound
  | TransactionNotFound
  | PersistenceError

datatype decision = Allow | DenyRateLimit | DenyOther

text \<open>
  \<^verbatim>\<open>data.isRecurring && data.recurringInterval ? calculateNextRecurringDate(...) : null\<close>,
  the expression both server actions store as \<^verbatim>\<open>nextRecurringDate\<close>. An absent interval
  and the empty string are falsy.
\<close>

definition next_recurring :: "tx_data \<Rightarrow> jsdate option" where
  "next_recurring data =
     (case d_recurringInterval data of
        None \<Rightarrow> None
      | Some interval \<Rightarrow>
          if d_isRecurring data \<and> interval \<noteq> []
          then Some (calculateNextRecurringDate (d_date data) interval)
          else None)"

text \<open>
  \<^verbatim>\<open>db.$transaction\<close>: the writes of the callback are kept when it returns and undone
  when it throws.
\<close>

definition db_transaction :: "(db \<Rightarrow> tx_error + 'a \<times> db) \<Rightarrow> db \<Rightarrow> (tx_error + 'a) \<times> db" where
  "db_transaction f s = (case f s of Inl e \<Rightarrow> (Inl e, s) | Inr (v, s') \<Rightarrow> (Inr v, s'))"

text \<open>\<^verbatim>\<open>tx.transaction.create\<close> under the id the store generates; ids are unique.\<close>

definition transaction_create :: "string \<Rightarrow> transaction \<Rightarrow> db \<Rightarrow> tx_error + transaction \<times> db" where
  "transaction_create newId t s =
     (if transactions s newId \<noteq> None then Inl PersistenceError
      else Inr (t, s\<lparr>transactions := (transactions s)(newId \<mapsto> t)\<rparr>))"

text \<open>\<^verbatim>\<open>tx.transaction.update\<close> with \<^verbatim>\<open>where: {id, userId}\<close>: the record must exist.\<close>

definition transaction_update ::
  "string \<Rightarrow> string \<Rightarrow> (transaction \<Rightarrow> transaction) \<Rightarrow> db \<Rightarrow> tx_error + transaction \<times> db" where
  "transaction_update tid uid f s =
     (case transactions s tid of
        None \<Rightarrow> Inl PersistenceError
      | Some t \<Rightarrow>
          if t_userId t = uid
          then Inr (f t, s\<lparr>transactions := (transactions s)(tid \<mapsto> f t)\<rparr>)
          else Inl PersistenceError)"

text \<open>\<^verbatim>\<open>tx.account.update\<close> with \<^verbatim>\<open>where: {id}\<close>: the record must exist.\<close>

definition account_update :: "string \<Rightarrow> (account \<Rightarrow> account) \<Rightarrow> db \<Rightarrow> tx_error + db" where
  "account_update aid f s =
     (case accounts s aid of
        None \<Rightarrow> Inl PersistenceError
      | Some a \<Rightarrow> Inr (s\<lparr>accounts := (accounts s)(aid \<mapsto> f a)\<rparr>))"

text \<open>\<^verbatim>\<open>db.account.findUnique({where: {id, userId}})\<close>.\<close>

definition find_account :: "db \<Rightarrow> string \<Rightarrow> string \<Rightarrow> account option" where
  "find_account s aid uid =
     (case accounts s aid of
        None \<Rightarrow> None
      | Some a \<Rightarrow> if a_userId a = uid then Some a else None)"

text \<open>\<^verbatim>\<open>db.transaction.findUnique({where: {id, userId}})\<close>.\<close>

definition find_transaction :: "db \<Rightarrow> string \<Rightarrow> string \<Rightarrow> transaction option" where
  "find_transaction s tid uid =
     (case transactions s tid of
        None \<Rightarrow> None
      | Some t \<Rightarrow> if t_userId t = uid then Some t else None)"

text \<open>
  \<^verbatim>\<open>createTransaction(data)\<close>. \<^verbatim>\<open>auth\<close> is the identity provider's user id, \<^verbatim>\<open>dec\<close> the
  rate limiter's decision, \<^verbatim>\<open>newId\<close> the id the store gives the new record. The result is
  the outcome and the store afterwards.
\<close>

definition createTransaction ::
  "string option \<Rightarrow> decision \<Rightarrow> string \<Rightarrow> tx_data \<Rightarrow> db \<Rightarrow> (tx_error + transaction) \<times> db" where
  "createTransaction auth dec newId data s =
     (case auth of
        None \<Rightarrow> (Inl Unauthorized, s)
      | Some userId \<Rightarrow>
     (case dec of
        DenyRateLimit \<Rightarrow> (Inl TooManyRequests, s)
      | DenyOther \<Rightarrow> (Inl RequestBlocked, s)
      | Allow \<Rightarrow>
     (case users s userId of
        None \<Rightarrow> (Inl UserNotFound, s)
      | Some user \<Rightarrow>
     (case find_account s (d_accountId data) user of
        None \<Rightarrow> (Inl AccountNotFound, s)
      | Some account \<Rightarrow>
          let balanceChange = (if d_type data = EXPENSE then - d_amount data else d_amount data);
              newBalance = balance account + balanceChange
          in db_transaction
               (\<lambda>tx.
                  case transaction_create newId
                         \<lparr>tdata = data, t_userId = user, nextRecurringDate = next_recurring data\<rparr> tx of
                    Inl e \<Rightarrow> Inl e
                  | Inr (newTransaction, tx1) \<Rightarrow>
                      (case account_update (d_accountId data) (\<lambda>a. a\<lparr>balance := newBalance\<rparr>) tx1 of
                         Inl e \<Rightarrow> Inl e
                       | Inr tx2 \<Rightarrow> Inr (newTransaction, tx2)))
               s))))"

text \<open>\<^verbatim>\<open>updateTransaction(id, data)\<close>; the balance is changed with \<^verbatim>\<open>increment\<close>.\<close>

definition updateTransaction ::
  "string option \<Rightarrow> string \<Rightarrow> tx_data \<Rightarrow> db \<Rightarrow> (tx_error + transaction) \<times> db" where
  "updateTransaction auth tid data s =
     (case auth of
        None \<Rightarrow> (Inl Unauthorized, s)
      | Some userId \<Rightarrow>
     (case users s userId of
        None \<Rightarrow> (Inl UserNotFound, s)
      | Some user \<Rightarrow>
     (case find_transaction s tid user of
        None \<Rightarrow> (Inl TransactionNotFound, s)
      | Some originalTransaction \<Rightarrow>
          let oldBalanceChange =
                (if d_type (tdata originalTransaction) = EXPENSE
                 then - d_amount (tdata originalTransaction)
                 else d_amount (tdata originalTransaction));
              newBalanceChange = (if d_type data = EXPENSE then - d_amount data else d_amount data);
              netBalanceChange = newBalanceChange - oldBalanceChange
          in db_transaction
               (\<lambda>tx.
                  case transaction_update tid user
                         (\<lambda>t. t\<lparr>tdata := data, nextRecurringDate := next_recurring data\<rparr>) tx of
                    Inl e \<Rightarrow> Inl e
                  | Inr (updated, tx1) \<Rightarrow>
                      (case account_update (d_accountId data)
                              (\<lambda>a. a\<lparr>balance := balance a + netBalanceChange\<rparr>) tx1 of
                         Inl e \<Rightarrow> Inl e
                       | Inr tx2 \<Rightarrow> Inr (updated, tx2)))
               s)))"

subsection \<open>A small store to run the ledger on\<close>

definition example_expense :: tx_data where
  "example_expense =
     \<lparr>d_type = EXPENSE, d_amount = 100, d_description = ''Groceries'', d_accountId = ''acc_1'',
      d_category = ''cat_food'', d_date = \<lparr>year = 2023, month = 0, day = 31\<rparr>,
      d_isRecurring = False, d_recurringInterval = None\<rparr>"

definition example_income :: tx_data where
  "example_income = example_expense\<lparr>d_type := INCOME, d_amount := 30\<rparr>"

definition example_monthly :: tx_data where
  "example_monthly = example_expense\<lparr>d_isRecurring := True, d_recurringInterval := Some ''MONTHLY''\<rparr>"

definition example_db :: db where
  "example_db =
     \<lparr>users = [''clerk_1'' \<mapsto> ''user_1''],
      accounts = [''acc_1'' \<mapsto> \<lparr>a_userId = ''user_1'', balance = 500\<rparr>],
      transactions =
        [''tx_1'' \<mapsto> \<lparr>tdata = example_expense, t_userId = ''user_1'', nextRecurringDate = None\<rparr>]\<rparr>"

section \<open>The transaction form: applying a scanned receipt\<close>

text \<open>
  The component \<^verbatim>\<open>AddTransactionForm\<close> (src/unnamed/part_000). Its state is the fields
  of the form that the scan touches, the ref \<^verbatim>\<open>isProcessingScan\<close>, the ref
  \<^verbatim>\<open>prevTypeRef\<close>, the toasts shown so far and the callbacks \<^verbatim>\<open>setTimeout\<close> holds, each
  with the \<^verbatim>\<open>scannedData\<close> it closes over.
\<close>

record category =
  c_id :: string
  c_name :: string
  c_type :: tx_type

text \<open>The amount field holds text: what the user typed, or \<^verbatim>\<open>amount.toString()\<close> of a number.\<close>

datatype amount_field = AmountText string | AmountOfNumber jsnum

datatype toast =
    WarnAmountInvalid            \<comment> \<open>\<^verbatim>\<open>Could not auto-fill amount. Please enter manually.\<close>\<close>
  | WarnAmountMissing            \<comment> \<open>\<^verbatim>\<open>Could not extract amount from receipt\<close>\<close>
  | WarnCategoryUnmatched string \<comment> \<open>\<^verbatim>\<open>Could not match category "...". Please select manually.\<close>\<close>
  | WarnCategoryMissing          \<comment> \<open>\<^verbatim>\<open>Could not extract category from receipt. Please select manually.\<close>\<close>
  | ErrorProcessing              \<comment> \<open>\<^verbatim>\<open>Error processing receipt data. Please enter manually.\<close>\<close>

record form_state =
  f_type :: tx_type
  f_amount :: amount_field
  f_description :: string
  f_category :: string
  f_date :: jsdate
  isProcessingScan :: bool
  prevTypeRef :: "tx_type option"
  toasts :: "toast list"
  timers :: "jsobj list"

text \<open>The argument of \<^verbatim>\<open>handleScanComplete\<close>: a falsy value, a truthy value that is no
  object, or an object.\<close>

datatype scanned = ScanFalsy | ScanNonObject | ScanObj jsobj

fun scan_falsy :: "scanned \<Rightarrow> bool" where
  "scan_falsy ScanFalsy = True"
| "scan_falsy _ = False"

text \<open>\<^verbatim>\<open>toLowerCase\<close>, on ASCII letters.\<close>

definition lower_char :: "char \<Rightarrow> char" where
  "lower_char c =
     (case map_of (zip ''ABCDEFGHIJKLMNOPQRSTUVWXYZ'' ''abcdefghijklmnopqrstuvwxyz'') c of
        None \<Rightarrow> c
      | Some l \<Rightarrow> l)"

definition toLowerCase :: "string \<Rightarrow> string" where
  "toLowerCase s = map lower_char s"

text \<open>
  Calling \<^verbatim>\<open>x.trim()\<close> behind the guard \<^verbatim>\<open>x && ...\<close> throws a TypeError when \<^verbatim>\<open>x\<close> is
  truthy and no string.
\<close>

fun trim_throws :: "jsval \<Rightarrow> bool" where
  "trim_throws (JStr s) = False"
| "trim_throws v = truthy v"

fun str_of :: "jsval \<Rightarrow> string" where
  "str_of (JStr s) = s"
| "str_of v = []"

text \<open>The \<^verbatim>\<open>catch\<close> block of \<^verbatim>\<open>handleScanComplete\<close>.\<close>

definition scan_catch :: "form_state \<Rightarrow> form_state" where
  "scan_catch s = s\<lparr>isProcessingScan := False, toasts := toasts s @ [ErrorProcessing]\<rparr>"

definition set_amount :: "jsobj \<Rightarrow> form_state \<Rightarrow> form_state" where
  "set_amount scannedData s =
     (if scannedData ''amount'' \<noteq> JUndefined \<and> scannedData ''amount'' \<noteq> JNull then
        (let amount = parseFloat (scannedData ''amount'') in
         if amount \<noteq> NaN \<and> num_gt_zero amount then s\<lparr>f_amount := AmountOfNumber amount\<rparr>
         else s\<lparr>toasts := toasts s @ [WarnAmountInvalid]\<rparr>)
      else s\<lparr>toasts := toasts s @ [WarnAmountMissing]\<rparr>)"

text \<open>\<^verbatim>\<open>parseDate\<close> is \<^verbatim>\<open>new Date(x)\<close>, \<^term>\<open>None\<close> for an invalid date; what strings it
  accepts beyond the ISO format depends on the runtime.\<close>

definition set_date :: "(jsval \<Rightarrow> jsdate option) \<Rightarrow> jsobj \<Rightarrow> form_state \<Rightarrow> form_state" where
  "set_date parseDate scannedData s =
     (if truthy (scannedData ''date'') then
        (case parseDate (scannedData ''date'') of
           Some date \<Rightarrow> s\<lparr>f_date := date\<rparr>
         | None \<Rightarrow> s)
      else s)"

definition handleScanComplete ::
  "(jsval \<Rightarrow> jsdate option) \<Rightarrow> scanned \<Rightarrow> form_state \<Rightarrow> form_state" where
  "handleScanComplete parseDate scannedData s =
     (if scan_falsy scannedData \<or> isProcessingScan s then s
      else
        let s0 = s\<lparr>isProcessingScan := True\<rparr> in
        case scannedData of
          ScanObj d \<Rightarrow>
            let s1 = set_amount d s0;
                s2 = set_date parseDate d s1
            in if trim_throws (d ''description'') then scan_catch s2
               else
                 let s3 = (if truthy (d ''description'') \<and> js_trim (str_of (d ''description'')) \<noteq> []
                           then s2\<lparr>f_description := str_of (d ''description'')\<rparr> else s2);
                     s4 = s3\<lparr>f_type := EXPENSE\<rparr>
                 in s4\<lparr>timers := timers s4 @ [d]\<rparr>
        | _ \<Rightarrow> scan_catch s0)"

text \<open>The candidate the callback looks for: \<^verbatim>\<open>categories.find(cat => ...)\<close>.\<close>

definition find_category :: "category list \<Rightarrow> string \<Rightarrow> category option" where
  "find_category categories suggestion =
     List.find (\<lambda>cat. toLowerCase (c_name cat) = toLowerCase suggestion \<and> c_type cat = EXPENSE)
       categories"

text \<open>
  The callback given to \<^verbatim>\<open>setTimeout\<close>. It runs outside the \<^verbatim>\<open>try\<close>: when \<^verbatim>\<open>trim\<close> throws,
  nothing is written and the flag stays set.
\<close>

definition scan_callback :: "category list \<Rightarrow> jsobj \<Rightarrow> form_state \<Rightarrow> form_state" where
  "scan_callback categories scannedData s =
     (if trim_throws (scannedData ''category'') then s
      else if truthy (scannedData ''category'') \<and> js_trim (str_of (scannedData ''category'')) \<noteq> [] then
        (case find_category categories (str_of (scannedData ''category'')) of
           Some foundCategory \<Rightarrow> s\<lparr>f_category := c_id foundCategory, isProcessingScan := False\<rparr>
         | None \<Rightarrow>
             s\<lparr>f_category := [],
               toasts := toasts s @ [WarnCategoryUnmatched (str_of (scannedData ''category''))],
               isProcessingScan := False\<rparr>)
      else s\<lparr>f_category := [], toasts := toasts s @ [WarnCategoryMissing],
             isProcessingScan := False\<rparr>)"

text \<open>The timer fires: the oldest pending callback runs.\<close>

definition fire_timer :: "category list \<Rightarrow> form_state \<Rightarrow> form_state" where
  "fire_timer categories s =
     (case timers s of
        [] \<Rightarrow> s
      | d # rest \<Rightarrow> scan_callback categories d (s\<lparr>timers := rest\<rparr>))"

text \<open>
  The effect on \<^verbatim>\<open>[type, setValue]\<close>: it runs after the first render and after every
  render in which \<^verbatim>\<open>type\<close> has changed. \<^verbatim>\<open>prevTypeRef\<close> starts as the first
  \<^verbatim>\<open>type\<close> (\<^verbatim>\<open>useRef(type)\<close>); \<^term>\<open>None\<close> is \<^verbatim>\<open>undefined\<close>.
\<close>

definition type_effect :: "form_state \<Rightarrow> form_state" where
  "type_effect s =
     (let s' = (if \<not> isProcessingScan s \<and> prevTypeRef s \<noteq> Some (f_type s) \<and> prevTypeRef s \<noteq> None
                then s\<lparr>f_category := []\<rparr> else s)
      in s'\<lparr>prevTypeRef := Some (f_type s)\<rparr>)"

text \<open>The first render with the form's default values, and its effect.\<close>

definition mount ::
  "tx_type \<Rightarrow> amount_field \<Rightarrow> string \<Rightarrow> string \<Rightarrow> jsdate \<Rightarrow> form_state" where
  "mount ty am de ca da =
     type_effect
       \<lparr>f_type = ty, f_amount = am, f_description = de, f_category = ca, f_date = da,
        isProcessingScan = False, prevTypeRef = Some ty, toasts = [], timers = []\<rparr>"

text \<open>The user picks a type in the select: \<^verbatim>\<open>setValue("type", value)\<close>, a render, the effect.\<close>

definition user_set_type :: "tx_type \<Rightarrow> form_state \<Rightarrow> form_state" where
  "user_set_type t s = type_effect (s\<lparr>f_type := t\<rparr>)"

text \<open>
  What holds of the flag and the timers in every state the component reaches: a callback
  is pending only while the flag is set, and never more than one.
\<close>

definition reconciler_inv :: "form_state \<Rightarrow> bool" where
  "reconciler_inv s = (timers s = [] \<or> (isProcessingScan s \<and> length (timers s) = 1))"

subsection \<open>A form, a category list and a runtime to run the reconciler on\<close>

text \<open>One behaviour \<^verbatim>\<open>new Date(x)\<close> may have: ISO dates \<^verbatim>\<open>YYYY-MM-DD\<close> of the calendar
  are read, everything else is an invalid date.\<close>

definition iso_parseDate :: "jsval \<Rightarrow> jsdate option" where
  "iso_parseDate v =
     (case v of
        JStr s \<Rightarrow>
          if dateRegex_matches s then
            (let y = int (digits_value 10 (take 4 s));
                 m = digits_value 10 (take 2 (drop 5 s));
                 d = digits_value 10 (drop 8 s)
             in if 1 \<le> m \<and> m \<le> 12 \<and> 1 \<le> d \<and> d \<le> days_in_month y (m - 1)
                then Some \<lparr>year = y, month = m - 1, day = d\<rparr> else None)
          else None
      | _ \<Rightarrow> None)"

definition example_categories :: "category list" where
  "example_categories =
     [\<lparr>c_id = ''c1'', c_name = ''Food'', c_type = EXPENSE\<rparr>,
      \<lparr>c_id = ''c2'', c_name = ''Food'', c_type = INCOME\<rparr>]"

definition example_form :: form_state where
  "example_form =
     mount INCOME (AmountText []) [] ''c2'' \<lparr>year = 2025, month = 5, day = 1\<rparr>"

definition example_draft :: "string \<Rightarrow> jsobj" where
  "example_draft suggestion =
     empty_obj(''amount'' := JNum (Fin (25 / 2)), ''description'' := JStr ''Corner Cafe'',
               ''date'' := JStr ''2025-05-30'', ''category'' := JStr suggestion)"

text \<open>A draft whose category came back as a list, \<^verbatim>\<open>["Food", "Groceries"]\<close>;
  \<^verbatim>\<open>scanReceipt\<close> passes every truthy category on as it is.\<close>

definition example_draft_list :: jsobj where
  "example_draft_list = (example_draft [])(''category'' := JObject ''Food,Groceries'')"

definition example_expense_form :: form_state where
  "example_expense_form =
     mount EXPENSE (AmountText []) [] ''c1'' \<lparr>year = 2025, month = 5, day = 1\<rparr>"

text \<open>The expense form after that draft has been scanned, the form has rendered and the
  timer has fired.\<close>

definition example_stuck_form :: form_state where
  "example_stuck_form =
     fire_timer example_categories
       (type_effect
          (handleScanComplete iso_parseDate (ScanObj example_draft_list) example_expense_form))"

section \<open>Properties of the normalisation in scanReceipt\<close>

lemmas js_eval =
  is_ws_def is_digit_def js_trim_def radix_digit_def digits_value_def pow10_def
  scan_exponent_def scan_unsigned_def scan_decimal_def parseFloat_str_def radix_literal_def
  string_to_number_def js_le_zero_def dateRegex_matches_def empty_obj_def result_field_def

lemma dateRegex_matches_nonempty: "dateRegex_matches s \<Longrightarrow> s \<noteq> []"
  by (auto simp: dateRegex_matches_def)

lemma dateRegex_test_truthy: "dateRegex_test v \<Longrightarrow> truthy v \<and> v \<noteq> JStr []"
  by (cases v) (auto dest: dateRegex_matches_nonempty)




text \<open>
  C9, as the code has it. The claim replaces a description that is blank after trimming.
  The code does not trim: a description of three spaces is kept.
\<close>

theorem scanReceipt_description_counterexample:
  "result_field ''description''
     (scanReceipt_normalize ''2025-06-01''
        (empty_obj(''amount'' := JNum (Fin 5), ''description'' := JStr ''   '')))
   = Some (JStr ''   '') \<and> js_trim ''   '' = []"
  by (simp add: scanReceipt_normalize_def js_eval)

text \<open>
  C9 (amended): whether the normalisation succeeds does not depend on the description;
  when it succeeds, a description that is absent or falsy (null, false, 0, the empty
  string) is replaced by \<^verbatim>\<open>Receipt Transaction\<close>, and any other description, a string of
  white space included, is kept as it is.
\<close>

theorem scanReceipt_description_default:
  "(\<forall>v. isl (scanReceipt_normalize today (pd(''description'' := v)))
          = isl (scanReceipt_normalize today pd)) \<and>
   (\<forall>d. scanReceipt_normalize today pd = Inr d \<longrightarrow>
      d ''description'' =
        (if truthy (pd ''description'') then pd ''description'' else JStr ''Receipt Transaction''))"
  by (auto simp: scanReceipt_normalize_def Let_def)

theorem scanReceipt_description_default_witness:
  "\<exists>d. scanReceipt_normalize ''2025-06-01''
          (empty_obj(''amount'' := JNum (Fin 5), ''description'' := JStr [])) = Inr d \<and>
       d ''description'' = JStr ''Receipt Transaction''"
proof -
  obtain d where d: "scanReceipt_normalize ''2025-06-01''
          (empty_obj(''amount'' := JNum (Fin 5), ''description'' := JStr [])) = Inr d"
    by (simp add: scanReceipt_normalize_def js_eval)
  from scanReceipt_description_default
         [of "''2025-06-01''" "empty_obj(''amount'' := JNum (Fin 5), ''description'' := JStr [])"] d
  have "d ''description'' = JStr ''Receipt Transaction''"
    by (simp add: js_eval)
  with d show ?thesis by blast
qed

text \<open>
  C10: the extracted date is checked against the digit pattern only. When the
  normalisation succeeds, a date whose string matches \<^verbatim>\<open>dddd-dd-dd\<close> is kept unchanged,
  whatever calendar date it denotes, and every other date (absent, empty, or not of this
  form) is replaced by the current date.
\<close>

theorem scanReceipt_date_pattern_only:
  "scanReceipt_normalize today parsedData = Inr draft \<Longrightarrow>
     draft ''date'' =
       (if dateRegex_test (parsedData ''date'') then parsedData ''date'' else JStr today)"
  by (auto simp: scanReceipt_normalize_def Let_def split: if_splits dest: dateRegex_test_truthy)

theorem scanReceipt_date_pattern_only_witness:
  "\<exists>draft. scanReceipt_normalize ''2025-06-01''
       (empty_obj(''amount'' := JNum (Fin 5), ''date'' := JStr ''2024-99-99'')) = Inr draft
     \<and> draft ''date'' = JStr ''2024-99-99''"
proof -
  obtain draft where d: "scanReceipt_normalize ''2025-06-01''
       (empty_obj(''amount'' := JNum (Fin 5), ''date'' := JStr ''2024-99-99'')) = Inr draft"
    by (simp add: scanReceipt_normalize_def js_eval)
  from scanReceipt_date_pattern_only [OF d] have "draft ''date'' = JStr ''2024-99-99''"
    by (simp add: js_eval)
  with d show ?thesis by blast
qed

section \<open>Calendar arithmetic\<close>

lemma days_in_month_bounds: "28 \<le> days_in_month y m \<and> days_in_month y m \<le> 31"
  by (simp add: days_in_month_def)

lemma make_date_done:
  "m < 12 \<Longrightarrow> d \<le> days_in_month y m \<Longrightarrow> make_date y m d = \<lparr>year = y, month = m, day = d\<rparr>"
  by (subst make_date.simps) simp

lemma make_date_month:
  "12 \<le> m \<Longrightarrow> make_date y m d = make_date (y + 1) (m - 12) d"
  by (subst make_date.simps) simp

lemma make_date_day:
  "m < 12 \<Longrightarrow> days_in_month y m < d \<Longrightarrow>
     make_date y m d = make_date y (m + 1) (d - days_in_month y m)"
  by (subst make_date.simps) simp

declare make_date.simps [simp del]

lemma ceil_div:
  fixes y k :: int
  assumes "0 < k"
  shows "(y + (k - 1)) div k = y div k + (if y mod k = 0 then 0 else 1)"
proof -
  have r: "0 \<le> y mod k" "y mod k < k" using assms by simp_all
  have "y + (k - 1) = (y mod k + (k - 1)) + (y div k) * k"
    using div_mult_mod_eq [of y k] by linarith
  then have "(y + (k - 1)) div k = ((y mod k + (k - 1)) + (y div k) * k) div k"
    by (rule arg_cong)
  also have "\<dots> = (y mod k + (k - 1)) div k + y div k"
    using assms by (subst div_mult_self1) simp_all
  finally have e: "(y + (k - 1)) div k = (y mod k + (k - 1)) div k + y div k" .
  show ?thesis
  proof (cases "y mod k = 0")
    case True
    then have "(y mod k + (k - 1)) div k = 0" using assms by simp
    with e True show ?thesis by simp
  next
    case False
    then have b: "k \<le> y mod k + (k - 1)" "y mod k + (k - 1) - k < k" "0 \<le> y mod k + (k - 1) - k"
      using r by linarith+
    have "(y mod k + (k - 1)) div k = (y mod k + (k - 1) - k) div k + 1"
      using assms b(1) by (subst div_pos_geq) simp_all
    also have "(y mod k + (k - 1) - k) div k = 0"
      using b by (intro div_pos_pos_trivial)
    finally show ?thesis using e False by simp
  qed
qed

lemma next_div:
  fixes y k :: int
  assumes "0 < k"
  shows "(y + 1 + (k - 1)) div k = y div k + 1"
proof -
  have "y + 1 + (k - 1) = y + 1 * k" by simp
  then have "(y + 1 + (k - 1)) div k = (y + 1 * k) div k" by (rule arg_cong)
  also have "\<dots> = y div k + 1" using assms by (subst div_mult_self1) simp_all
  finally show ?thesis .
qed

lemma mod_400_100: "(y::int) mod 400 = 0 \<Longrightarrow> y mod 100 = 0"
  using mod_mod_cancel [of 100 400 y] by simp

lemma mod_100_4: "(y::int) mod 100 = 0 \<Longrightarrow> y mod 4 = 0"
  using mod_mod_cancel [of 4 100 y] by simp

lemma days_before_year_Suc: "days_before_year (y + 1) = days_before_year y + int (year_length y)"
proof -
  have a: "(y + 1 + 3) div 4 = (y + 3) div 4 + (if y mod 4 = 0 then 1 else 0)"
    using ceil_div [of 4 y] next_div [of 4 y] by simp
  have b: "(y + 1 + 99) div 100 = (y + 99) div 100 + (if y mod 100 = 0 then 1 else 0)"
    using ceil_div [of 100 y] next_div [of 100 y] by simp
  have c: "(y + 1 + 399) div 400 = (y + 399) div 400 + (if y mod 400 = 0 then 1 else 0)"
    using ceil_div [of 400 y] next_div [of 400 y] by simp
  have l: "int (year_length y) =
             365 + (if y mod 4 = 0 then 1 else 0) - (if y mod 100 = 0 then 1 else 0)
                 + (if y mod 400 = 0 then 1 else 0)"
    using mod_400_100 [of y] mod_100_4 [of y] by (simp add: year_length_def is_leap_def)
  have gen: "\<And>p q r A B C :: int.
      365 * (y + 1) + (p + A) - (q + B) + (r + C) = 365 * y + p - q + r + (365 + A - B + C)"
    by (simp add: algebra_simps)
  have "days_before_year (y + 1) =
          365 * (y + 1) + ((y + 3) div 4 + (if y mod 4 = 0 then 1 else 0))
             - ((y + 99) div 100 + (if y mod 100 = 0 then 1 else 0))
             + ((y + 399) div 400 + (if y mod 400 = 0 then 1 else 0))"
    unfolding days_before_year_def a b c ..
  also have "\<dots> = days_before_year y + int (year_length y)"
    unfolding l days_before_year_def by (rule gen)
  finally show ?thesis .
qed

lemma days_before_month_12: "days_before_month y 12 = year_length y"
  by (simp add: eval_nat_numeral days_in_month_def year_length_def)


lemma make_date_carry:
  assumes "m < 12" "days_in_month y m < d" "d \<le> days_in_month y m + 28"
  shows "make_date y m d =
           (if m = 11 then \<lparr>year = y + 1, month = 0, day = d - days_in_month y m\<rparr>
            else \<lparr>year = y, month = m + 1, day = d - days_in_month y m\<rparr>)"
proof -
  let ?d = "d - days_in_month y m"
  have small: "?d \<le> 28" using assms by simp
  have step: "make_date y m d = make_date y (m + 1) ?d"
    using assms by (simp add: make_date_day)
  show ?thesis
  proof (cases "m = 11")
    case True
    have "make_date y (m + 1) ?d = make_date (y + 1) 0 ?d"
      using True by (simp add: make_date_month)
    also have "\<dots> = \<lparr>year = y + 1, month = 0, day = ?d\<rparr>"
      using small days_in_month_bounds [of "y + 1" 0] by (intro make_date_done) auto
    finally show ?thesis using step True by simp
  next
    case False
    then have "m + 1 < 12" using assms by simp
    moreover have "?d \<le> days_in_month y (m + 1)"
      using small days_in_month_bounds [of y "m + 1"] by linarith
    ultimately have "make_date y (m + 1) ?d = \<lparr>year = y, month = m + 1, day = ?d\<rparr>"
      by (rule make_date_done)
    then show ?thesis using step False by simp
  qed
qed

lemma day_number_carry:
  assumes "m < 12"
  shows "day_number (if m = 11 then \<lparr>year = y + 1, month = 0, day = d\<rparr>
                     else \<lparr>year = y, month = m + 1, day = d\<rparr>)
         = days_before_year y + int (days_before_month y m) + int (days_in_month y m) + int d"
proof (cases "m = 11")
  case True
  have "days_before_month y 12 = days_before_month y 11 + days_in_month y 11"
    by (simp add: eval_nat_numeral)
  then have "int (year_length y) = int (days_before_month y 11) + int (days_in_month y 11)"
    by (simp add: days_before_month_12)
  then show ?thesis using True
    by (simp add: day_number_def days_before_year_Suc)
next
  case False
  then show ?thesis by (simp add: day_number_def)
qed

text \<open>Raising the day of a valid date by up to 28.\<close>

lemma add_days:
  assumes v: "valid_date dt" and k: "1 \<le> k" "k \<le> 28"
    and r_def: "r = make_date (year dt) (month dt) (day dt + k)"
  shows "valid_date r \<and> date_before dt r \<and> day_number r = day_number dt + int k"
proof (cases "day dt + k \<le> days_in_month (year dt) (month dt)")
  case True
  then have "r = \<lparr>year = year dt, month = month dt, day = day dt + k\<rparr>"
    using v unfolding r_def valid_date_def by (intro make_date_done) auto
  then show ?thesis using True v k
    by (simp add: valid_date_def date_before_def day_number_def)
next
  case False
  let ?dim = "days_in_month (year dt) (month dt)"
  let ?d = "day dt + k - ?dim"
  have m: "month dt < 12" and d: "1 \<le> day dt" "day dt \<le> ?dim"
    using v by (simp_all add: valid_date_def)
  have r: "r = (if month dt = 11 then \<lparr>year = year dt + 1, month = 0, day = ?d\<rparr>
                else \<lparr>year = year dt, month = month dt + 1, day = ?d\<rparr>)"
    unfolding r_def using m d k False by (intro make_date_carry) auto
  have dd: "1 \<le> ?d" "?d \<le> 28" using False d k by auto
  have n: "day_number r = day_number dt + int k"
    unfolding r using day_number_carry [OF m, of "year dt" ?d] False d
    by (simp add: day_number_def)
  have val: "valid_date r"
    using dd m days_in_month_bounds [of "year dt + 1" 0] days_in_month_bounds [of "year dt" "month dt + 1"]
    by (auto simp: r valid_date_def)
  have "date_before dt r" using m by (auto simp: r date_before_def)
  with n val show ?thesis by simp
qed

lemma add_month:
  assumes v: "valid_date dt"
  defines "y' \<equiv> (if month dt = 11 then year dt + 1 else year dt)"
      and "m' \<equiv> (if month dt = 11 then 0 else month dt + 1)"
  assumes r_def: "r = make_date (year dt) (month dt + 1) (day dt)"
  shows "r = (if day dt \<le> days_in_month y' m' then \<lparr>year = y', month = m', day = day dt\<rparr>
              else \<lparr>year = y', month = m' + 1, day = day dt - days_in_month y' m'\<rparr>)
         \<and> valid_date r \<and> date_before dt r"
proof -
  have m: "month dt < 12" and d: "1 \<le> day dt" "day dt \<le> days_in_month (year dt) (month dt)"
    using v by (simp_all add: valid_date_def)
  have d31: "day dt \<le> 31" using d days_in_month_bounds [of "year dt" "month dt"] by linarith
  have m': "m' < 12" using m by (auto simp: m'_def)
  have r0: "r = make_date y' m' (day dt)"
    using m by (auto simp: r_def y'_def m'_def make_date_month)
  show ?thesis
  proof (cases "day dt \<le> days_in_month y' m'")
    case True
    then have "r = \<lparr>year = y', month = m', day = day dt\<rparr>"
      unfolding r0 using m' by (intro make_date_done)
    then show ?thesis using True m m' d
      by (auto simp: valid_date_def date_before_def y'_def m'_def)
  next
    case False
    then have ne: "m' \<noteq> 11" using d31 by (auto simp: days_in_month_def)
    have "r = (if m' = 11 then \<lparr>year = y' + 1, month = 0, day = day dt - days_in_month y' m'\<rparr>
               else \<lparr>year = y', month = m' + 1, day = day dt - days_in_month y' m'\<rparr>)"
      unfolding r0 using m' False d31 days_in_month_bounds [of y' m']
      by (intro make_date_carry) auto
    then have r: "r = \<lparr>year = y', month = m' + 1, day = day dt - days_in_month y' m'\<rparr>"
      using ne by simp
    have "day dt - days_in_month y' m' \<le> days_in_month y' (m' + 1)"
      using d31 days_in_month_bounds [of y' m'] days_in_month_bounds [of y' "m' + 1"] by linarith
    then show ?thesis using False m m' ne r
      by (auto simp: valid_date_def date_before_def y'_def m'_def)
  qed
qed

lemma add_year:
  assumes v: "valid_date dt"
    and r_def: "r = make_date (year dt + 1) (month dt) (day dt)"
  shows "r = (if day dt \<le> days_in_month (year dt + 1) (month dt)
              then \<lparr>year = year dt + 1, month = month dt, day = day dt\<rparr>
              else \<lparr>year = year dt + 1, month = 2, day = 1\<rparr>)
         \<and> valid_date r \<and> date_before dt r"
proof -
  have m: "month dt < 12" and d: "1 \<le> day dt" "day dt \<le> days_in_month (year dt) (month dt)"
    using v by (simp_all add: valid_date_def)
  show ?thesis
  proof (cases "day dt \<le> days_in_month (year dt + 1) (month dt)")
    case True
    then have "r = \<lparr>year = year dt + 1, month = month dt, day = day dt\<rparr>"
      unfolding r_def using m by (intro make_date_done)
    then show ?thesis using True m d by (auto simp: valid_date_def date_before_def)
  next
    case False
    then have feb: "month dt = 1" "day dt = 29" "days_in_month (year dt + 1) (month dt) = 28"
      using d by (auto simp: days_in_month_def split: if_splits)
    have "r = (if month dt = 11 then \<lparr>year = year dt + 1 + 1, month = 0,
                                      day = day dt - days_in_month (year dt + 1) (month dt)\<rparr>
               else \<lparr>year = year dt + 1, month = month dt + 1,
                     day = day dt - days_in_month (year dt + 1) (month dt)\<rparr>)"
      unfolding r_def using m False feb by (intro make_date_carry) auto
    then have "r = \<lparr>year = year dt + 1, month = 2, day = 1\<rparr>"
      using feb by simp
    then show ?thesis using False feb
      by (auto simp: valid_date_def date_before_def days_in_month_def)
  qed
qed

section \<open>Properties of the ledger\<close>

lemmas ledger_defs =
  db_transaction_def transaction_create_def
  transaction_update_def account_update_def find_account_def find_transaction_def

lemmas example_defs =
  example_db_def example_expense_def example_income_def example_monthly_def

lemma find_account_Some:
  "find_account s aid uid = Some a \<Longrightarrow> accounts s aid = Some a \<and> a_userId a = uid"
  by (auto simp: find_account_def split: option.splits if_splits)

lemma find_transaction_Some:
  "find_transaction s tid uid = Some t \<Longrightarrow> transactions s tid = Some t \<and> t_userId t = uid"
  by (auto simp: find_transaction_def split: option.splits if_splits)

lemma createTransaction_cases:
  assumes c: "createTransaction auth dec newId data s = (r, s')"
  shows "(\<exists>e. r = Inl e \<and> s' = s) \<or>
         (\<exists>user acct.
            find_account s (d_accountId data) user = Some acct \<and>
            transactions s newId = None \<and>
            r = Inr \<lparr>tdata = data, t_userId = user, nextRecurringDate = next_recurring data\<rparr> \<and>
            transactions s' =
              (transactions s)(newId \<mapsto>
                 \<lparr>tdata = data, t_userId = user, nextRecurringDate = next_recurring data\<rparr>) \<and>
            accounts s' =
              (accounts s)(d_accountId data \<mapsto>
                 acct\<lparr>balance := balance acct +
                        (if d_type data = EXPENSE then - d_amount data else d_amount data)\<rparr>) \<and>
            users s' = users s)"
proof (cases auth)
  case None
  with c show ?thesis by (auto simp: createTransaction_def)
next
  case auth: (Some userId)
  show ?thesis
  proof (cases dec)
    case DenyRateLimit
    with c auth show ?thesis by (auto simp: createTransaction_def)
  next
    case DenyOther
    with c auth show ?thesis by (auto simp: createTransaction_def)
  next
    case Allow
    show ?thesis
    proof (cases "users s userId")
      case None
      with c auth Allow show ?thesis by (auto simp: createTransaction_def)
    next
      case user: (Some user)
      show ?thesis
      proof (cases "find_account s (d_accountId data) user")
        case None
        with c auth Allow user show ?thesis by (auto simp: createTransaction_def)
      next
        case acct: (Some acct)
        note a = find_account_Some [OF acct]
        show ?thesis
        proof (cases "transactions s newId")
          case None
          with c auth Allow user acct a show ?thesis
            by (auto simp: createTransaction_def Let_def db_transaction_def
                  transaction_create_def account_update_def)
        next
          case (Some old)
          with c auth Allow user acct a show ?thesis
            by (auto simp: createTransaction_def Let_def db_transaction_def
                  transaction_create_def account_update_def)
        qed
      qed
    qed
  qed
qed

lemma updateTransaction_cases:
  assumes c: "updateTransaction auth tid data s = (r, s')"
  shows "(\<exists>e. r = Inl e \<and> s' = s) \<or>
         (\<exists>user orig acct.
            find_transaction s tid user = Some orig \<and>
            accounts s (d_accountId data) = Some acct \<and>
            r = Inr (orig\<lparr>tdata := data, nextRecurringDate := next_recurring data\<rparr>) \<and>
            transactions s' =
              (transactions s)(tid \<mapsto> orig\<lparr>tdata := data, nextRecurringDate := next_recurring data\<rparr>) \<and>
            accounts s' =
              (accounts s)(d_accountId data \<mapsto>
                 acct\<lparr>balance := balance acct +
                        ((if d_type data = EXPENSE then - d_amount data else d_amount data) -
                         (if d_type (tdata orig) = EXPENSE then - d_amount (tdata orig)
                          else d_amount (tdata orig)))\<rparr>) \<and>
            users s' = users s)"
proof (cases auth)
  case None
  with c show ?thesis by (auto simp: updateTransaction_def)
next
  case auth: (Some userId)
  show ?thesis
  proof (cases "users s userId")
    case None
    with c auth show ?thesis by (auto simp: updateTransaction_def)
  next
    case user: (Some user)
    show ?thesis
    proof (cases "find_transaction s tid user")
      case None
      with c auth user show ?thesis by (auto simp: updateTransaction_def)
    next
      case orig: (Some orig)
      note t = find_transaction_Some [OF orig]
      show ?thesis
      proof (cases "accounts s (d_accountId data)")
        case None
        with c auth user orig t show ?thesis
          by (auto simp: updateTransaction_def Let_def db_transaction_def
                transaction_update_def account_update_def)
      next
        case acct: (Some acct)
        have "r = Inr (orig\<lparr>tdata := data, nextRecurringDate := next_recurring data\<rparr>)"
          and "s' = s\<lparr>transactions :=
                       (transactions s)(tid \<mapsto> orig\<lparr>tdata := data, nextRecurringDate := next_recurring data\<rparr>),
                     accounts :=
                       (accounts s)(d_accountId data \<mapsto>
                          acct\<lparr>balance := balance acct +
                            ((if d_type data = EXPENSE then - d_amount data else d_amount data) -
                             (if d_type (tdata orig) = EXPENSE then - d_amount (tdata orig)
                              else d_amount (tdata orig)))\<rparr>)\<rparr>"
          using c auth user orig t acct
          by (simp_all add: updateTransaction_def Let_def db_transaction_def
                transaction_update_def account_update_def)
        with orig acct show ?thesis
          by (intro disjI2 exI [of _ user] exI [of _ orig] exI [of _ acct]) simp
      qed
    qed
  qed
qed





text \<open>
  C8, as the code has it. The claim has 31 January plus one month end in February. The
  code calls \<^verbatim>\<open>setMonth(getMonth() + 1)\<close>, which carries the days February lacks into
  March: for 31 January 2023 the stored date is 3 March 2023.
\<close>

theorem nextRecurringDate_counterexample:
  "next_recurring example_monthly = Some \<lparr>year = 2023, month = 2, day = 3\<rparr> \<and>
   d_date example_monthly = \<lparr>year = 2023, month = 0, day = 31\<rparr> \<and>
   d_isRecurring example_monthly \<and> d_recurringInterval example_monthly = Some ''MONTHLY''"
  by (simp add: next_recurring_def example_defs calculateNextRecurringDate_def
        make_date.simps days_in_month_def is_leap_def)

text \<open>
  C8 (amended): for every created or updated transaction with a valid date, the stored
  \<^verbatim>\<open>nextRecurringDate\<close> is null when \<^verbatim>\<open>isRecurring\<close> or the interval is unset. When both are
  set and the interval is DAILY, WEEKLY, MONTHLY or YEARLY it is a valid date strictly
  after the transaction's date: one day later; seven days later; the same day of the next
  month, or, when that month is too short, the days in excess counted into the month after
  it (31 January gives 3 March, or 2 March in a leap year); the same day and month of the
  next year, or 1 March for 29 February.
\<close>

theorem nextRecurringDate_stored:
  assumes "createTransaction auth dec newId data s = (Inr t, s')
           \<or> updateTransaction auth tid data s = (Inr t, s')"
      and v: "valid_date (d_date data)"
  shows "(\<not> d_isRecurring data \<or> d_recurringInterval data = None
            \<or> d_recurringInterval data = Some [] \<longrightarrow> nextRecurringDate t = None) \<and>
         (d_isRecurring data \<and> d_recurringInterval data = Some i \<and>
          i \<in> {''DAILY'', ''WEEKLY'', ''MONTHLY'', ''YEARLY''} \<longrightarrow>
            (\<exists>r. nextRecurringDate t = Some r \<and> valid_date r \<and> date_before (d_date data) r \<and>
               (i = ''DAILY'' \<longrightarrow> day_number r = day_number (d_date data) + 1) \<and>
               (i = ''WEEKLY'' \<longrightarrow> day_number r = day_number (d_date data) + 7) \<and>
               (i = ''MONTHLY'' \<longrightarrow>
                  r = (let y' = (if month (d_date data) = 11 then year (d_date data) + 1
                                 else year (d_date data));
                           m' = (if month (d_date data) = 11 then 0 else month (d_date data) + 1)
                       in if day (d_date data) \<le> days_in_month y' m'
                          then \<lparr>year = y', month = m', day = day (d_date data)\<rparr>
                          else \<lparr>year = y', month = m' + 1,
                                day = day (d_date data) - days_in_month y' m'\<rparr>)) \<and>
               (i = ''YEARLY'' \<longrightarrow>
                  r = (if day (d_date data) \<le> days_in_month (year (d_date data) + 1) (month (d_date data))
                       then \<lparr>year = year (d_date data) + 1, month = month (d_date data),
                             day = day (d_date data)\<rparr>
                       else \<lparr>year = year (d_date data) + 1, month = 2, day = 1\<rparr>))))"
proof -
  have n: "nextRecurringDate t = next_recurring data"
    using assms(1) createTransaction_cases [of auth dec newId data s "Inr t" s']
      updateTransaction_cases [of auth tid data s "Inr t" s']
    by auto
  have none: "\<not> d_isRecurring data \<or> d_recurringInterval data = None
            \<or> d_recurringInterval data = Some [] \<longrightarrow> next_recurring data = None"
    by (auto simp: next_recurring_def split: option.splits)
  have some: "d_isRecurring data \<and> d_recurringInterval data = Some i \<and>
          i \<in> {''DAILY'', ''WEEKLY'', ''MONTHLY'', ''YEARLY''} \<longrightarrow>
          next_recurring data = Some (calculateNextRecurringDate (d_date data) i)"
    by (auto simp: next_recurring_def)
  have daily: "calculateNextRecurringDate (d_date data) ''DAILY''
        = make_date (year (d_date data)) (month (d_date data)) (day (d_date data) + 1)"
    and weekly: "calculateNextRecurringDate (d_date data) ''WEEKLY''
        = make_date (year (d_date data)) (month (d_date data)) (day (d_date data) + 7)"
    and monthly: "calculateNextRecurringDate (d_date data) ''MONTHLY''
        = make_date (year (d_date data)) (month (d_date data) + 1) (day (d_date data))"
    and yearly: "calculateNextRecurringDate (d_date data) ''YEARLY''
        = make_date (year (d_date data) + 1) (month (d_date data)) (day (d_date data))"
    by (simp_all add: calculateNextRecurringDate_def)
  define r where "r = calculateNextRecurringDate (d_date data) i"
  have body: "i \<in> {''DAILY'', ''WEEKLY'', ''MONTHLY'', ''YEARLY''} \<Longrightarrow>
       valid_date r \<and> date_before (d_date data) r \<and>
               (i = ''DAILY'' \<longrightarrow> day_number r = day_number (d_date data) + 1) \<and>
               (i = ''WEEKLY'' \<longrightarrow> day_number r = day_number (d_date data) + 7) \<and>
               (i = ''MONTHLY'' \<longrightarrow>
                  r = (let y' = (if month (d_date data) = 11 then year (d_date data) + 1
                                 else year (d_date data));
                           m' = (if month (d_date data) = 11 then 0 else month (d_date data) + 1)
                       in if day (d_date data) \<le> days_in_month y' m'
                          then \<lparr>year = y', month = m', day = day (d_date data)\<rparr>
                          else \<lparr>year = y', month = m' + 1,
                                day = day (d_date data) - days_in_month y' m'\<rparr>)) \<and>
               (i = ''YEARLY'' \<longrightarrow>
                  r = (if day (d_date data) \<le> days_in_month (year (d_date data) + 1) (month (d_date data))
                       then \<lparr>year = year (d_date data) + 1, month = month (d_date data),
                             day = day (d_date data)\<rparr>
                       else \<lparr>year = year (d_date data) + 1, month = 2, day = 1\<rparr>))"
    (is "_ \<Longrightarrow> ?V \<and> ?B \<and> (?D \<longrightarrow> ?PD) \<and> (?W \<longrightarrow> ?PW) \<and> (?M \<longrightarrow> ?PM) \<and> (?Y \<longrightarrow> ?PY)")
  proof -
    assume "i \<in> {''DAILY'', ''WEEKLY'', ''MONTHLY'', ''YEARLY''}"
    then consider "i = ''DAILY''" | "i = ''WEEKLY''" | "i = ''MONTHLY''" | "i = ''YEARLY''"
      by auto
    then show ?thesis
    proof cases
      case 1
      then have l: "\<not> ?W" "\<not> ?M" "\<not> ?Y" by simp_all
      have c: "r = make_date (year (d_date data)) (month (d_date data)) (day (d_date data) + 1)"
        using 1 daily r_def by simp
      from add_days [OF v _ _ c] have "?V" "?B" "?PD" by simp_all
      with l show ?thesis by (intro conjI impI) (assumption | erule notE, assumption)+
    next
      case 2
      then have l: "\<not> ?D" "\<not> ?M" "\<not> ?Y" by simp_all
      have c: "r = make_date (year (d_date data)) (month (d_date data)) (day (d_date data) + 7)"
        using 2 weekly r_def by simp
      from add_days [OF v _ _ c] have "?V" "?B" "?PW" by simp_all
      with l show ?thesis by (intro conjI impI) (assumption | erule notE, assumption)+
    next
      case 3
      then have l: "\<not> ?D" "\<not> ?W" "\<not> ?Y" by simp_all
      have c: "r = make_date (year (d_date data)) (month (d_date data) + 1) (day (d_date data))"
        using 3 monthly r_def by simp
      note f = add_month [OF v c]
      have "?PM" unfolding Let_def by (rule f [THEN conjunct1])
      moreover have "?V" by (rule f [THEN conjunct2, THEN conjunct1])
      moreover have "?B" by (rule f [THEN conjunct2, THEN conjunct2])
      ultimately show ?thesis using l
        by (intro conjI impI) (assumption | erule notE, assumption)+
    next
      case 4
      then have l: "\<not> ?D" "\<not> ?W" "\<not> ?M" by simp_all
      have c: "r = make_date (year (d_date data) + 1) (month (d_date data)) (day (d_date data))"
        using 4 yearly r_def by simp
      note f = add_year [OF v c]
      have "?PY" by (rule f [THEN conjunct1])
      moreover have "?V" by (rule f [THEN conjunct2, THEN conjunct1])
      moreover have "?B" by (rule f [THEN conjunct2, THEN conjunct2])
      ultimately show ?thesis using l
        by (intro conjI impI) (assumption | erule notE, assumption)+
    qed
  qed
  show ?thesis
    unfolding n
  proof (intro conjI impI)
    assume "\<not> d_isRecurring data \<or> d_recurringInterval data = None
            \<or> d_recurringInterval data = Some []"
    then show "next_recurring data = None" by (rule none [THEN mp])
  next
    assume h: "d_isRecurring data \<and> d_recurringInterval data = Some i \<and>
          i \<in> {''DAILY'', ''WEEKLY'', ''MONTHLY'', ''YEARLY''}"
    then have s: "next_recurring data = Some r" unfolding r_def by (rule some [THEN mp])
    from h have "i \<in> {''DAILY'', ''WEEKLY'', ''MONTHLY'', ''YEARLY''}" by (elim conjE)
    from conjI [OF s body [OF this]]
    show "\<exists>r. next_recurring data = Some r \<and> valid_date r \<and> date_before (d_date data) r \<and>
               (i = ''DAILY'' \<longrightarrow> day_number r = day_number (d_date data) + 1) \<and>
               (i = ''WEEKLY'' \<longrightarrow> day_number r = day_number (d_date data) + 7) \<and>
               (i = ''MONTHLY'' \<longrightarrow>
                  r = (let y' = (if month (d_date data) = 11 then year (d_date data) + 1
                                 else year (d_date data));
                           m' = (if month (d_date data) = 11 then 0 else month (d_date data) + 1)
                       in if day (d_date data) \<le> days_in_month y' m'
                          then \<lparr>year = y', month = m', day = day (d_date data)\<rparr>
                          else \<lparr>year = y', month = m' + 1,
                                day = day (d_date data) - days_in_month y' m'\<rparr>)) \<and>
               (i = ''YEARLY'' \<longrightarrow>
                  r = (if day (d_date data) \<le> days_in_month (year (d_date data) + 1) (month (d_date data))
                       then \<lparr>year = year (d_date data) + 1, month = month (d_date data),
                             day = day (d_date data)\<rparr>
                       else \<lparr>year = year (d_date data) + 1, month = 2, day = 1\<rparr>))"
      by (rule exI)
  qed
qed

theorem nextRecurringDate_stored_witness:
  "(\<exists>t s'. createTransaction (Some ''clerk_1'') Allow ''tx_2'' example_monthly example_db = (Inr t, s') \<and>
           valid_date (d_date example_monthly) \<and>
           nextRecurringDate t = Some \<lparr>year = 2023, month = 2, day = 3\<rparr>) \<and>
   (\<exists>t s'. updateTransaction (Some ''clerk_1'') ''tx_1'' example_income example_db = (Inr t, s') \<and>
           nextRecurringDate t = None)"
proof -
  have v: "valid_date (d_date example_monthly)"
    by (simp add: example_defs valid_date_def days_in_month_def)
  obtain t s' where
    c: "createTransaction (Some ''clerk_1'') Allow ''tx_2'' example_monthly example_db = (Inr t, s')"
    by (simp add: createTransaction_def ledger_defs example_defs Let_def)
  have "d_isRecurring example_monthly \<and> d_recurringInterval example_monthly = Some ''MONTHLY'' \<and>
        ''MONTHLY'' \<in> {''DAILY'', ''WEEKLY'', ''MONTHLY'', ''YEARLY''}"
    by (simp add: example_defs)
  with nextRecurringDate_stored [OF disjI1 [OF c] v, of "''MONTHLY''"]
  have "nextRecurringDate t = Some \<lparr>year = 2023, month = 2, day = 3\<rparr>"
    by (auto simp: example_defs days_in_month_def is_leap_def Let_def)
  with c v have a: "\<exists>t s'. createTransaction (Some ''clerk_1'') Allow ''tx_2'' example_monthly example_db
                     = (Inr t, s') \<and>
           valid_date (d_date example_monthly) \<and>
           nextRecurringDate t = Some \<lparr>year = 2023, month = 2, day = 3\<rparr>"
    by blast
  have v2: "valid_date (d_date example_income)"
    by (simp add: example_defs valid_date_def days_in_month_def)
  obtain t2 s2 where
    u: "updateTransaction (Some ''clerk_1'') ''tx_1'' example_income example_db = (Inr t2, s2)"
    by (simp add: updateTransaction_def ledger_defs example_defs Let_def)
  have "\<not> d_isRecurring example_income" by (simp add: example_defs)
  with nextRecurringDate_stored [OF disjI2 [OF u] v2, of "''MONTHLY''"]
  have "nextRecurringDate t2 = None" by simp
  with u a show ?thesis by blast
qed

section \<open>Properties of the reconciler\<close>

lemmas form_eval =
  handleScanComplete_def set_amount_def set_date_def scan_catch_def scan_callback_def
  fire_timer_def type_effect_def mount_def user_set_type_def find_category_def
  toLowerCase_def lower_char_def iso_parseDate_def example_categories_def example_form_def
  example_draft_def days_in_month_def is_leap_def

lemmas stuck_eval = example_draft_list_def example_expense_form_def example_stuck_form_def

lemma handleScanComplete_busy:
  "isProcessingScan s \<Longrightarrow> handleScanComplete parseDate scannedData s = s"
  by (simp add: handleScanComplete_def)

lemma set_amount_fields:
  "f_type (set_amount d s) = f_type s \<and> f_category (set_amount d s) = f_category s \<and>
   isProcessingScan (set_amount d s) = isProcessingScan s \<and>
   prevTypeRef (set_amount d s) = prevTypeRef s \<and> timers (set_amount d s) = timers s"
  by (simp add: set_amount_def Let_def)

lemma set_date_fields:
  "f_type (set_date p d s) = f_type s \<and> f_category (set_date p d s) = f_category s \<and>
   isProcessingScan (set_date p d s) = isProcessingScan s \<and>
   prevTypeRef (set_date p d s) = prevTypeRef s \<and> timers (set_date p d s) = timers s \<and>
   toasts (set_date p d s) = toasts s"
  by (simp add: set_date_def split: option.splits)

lemma handleScanComplete_scheduled:
  assumes "\<not> isProcessingScan s" "\<not> trim_throws (d ''description'')"
  shows "f_type (handleScanComplete parseDate (ScanObj d) s) = EXPENSE \<and>
         isProcessingScan (handleScanComplete parseDate (ScanObj d) s) \<and>
         timers (handleScanComplete parseDate (ScanObj d) s) = timers s @ [d] \<and>
         f_category (handleScanComplete parseDate (ScanObj d) s) = f_category s \<and>
         prevTypeRef (handleScanComplete parseDate (ScanObj d) s) = prevTypeRef s"
  using assms
  by (simp add: handleScanComplete_def Let_def set_amount_fields set_date_fields)

lemma find_category_Some:
  "find_category cats sug = Some c \<Longrightarrow>
     c \<in> set cats \<and> toLowerCase (c_name c) = toLowerCase sug \<and> c_type c = EXPENSE"
  unfolding find_category_def by (auto simp: find_Some_iff)

lemma find_category_None:
  "find_category cats sug = None \<longleftrightarrow>
     \<not> (\<exists>c\<in>set cats. toLowerCase (c_name c) = toLowerCase sug \<and> c_type c = EXPENSE)"
  unfolding find_category_def by (auto simp: find_None_iff)

lemma scan_callback_keeps:
  "f_type (scan_callback cats d s) = f_type s \<and> prevTypeRef (scan_callback cats d s) = prevTypeRef s \<and>
   timers (scan_callback cats d s) = timers s"
  by (simp add: scan_callback_def split: option.splits)


lemma reconciler_inv_steps:
  "reconciler_inv (mount ty am de ca da)"
  "reconciler_inv s \<Longrightarrow> reconciler_inv (handleScanComplete parseDate scannedData s)"
  "reconciler_inv s \<Longrightarrow> reconciler_inv (fire_timer categories s)"
  "reconciler_inv s \<Longrightarrow> reconciler_inv (type_effect s)"
  "reconciler_inv s \<Longrightarrow> reconciler_inv (user_set_type t s)"
proof -
  show "reconciler_inv (mount ty am de ca da)"
    by (simp add: reconciler_inv_def mount_def type_effect_def)
  show "reconciler_inv (type_effect s)" if "reconciler_inv s"
    using that by (auto simp: reconciler_inv_def type_effect_def Let_def)
  show "reconciler_inv (user_set_type t s)" if "reconciler_inv s"
    using that by (auto simp: reconciler_inv_def user_set_type_def type_effect_def Let_def)
  show "reconciler_inv (fire_timer categories s)" if "reconciler_inv s"
    using that
    by (auto simp: reconciler_inv_def fire_timer_def scan_callback_def
             split: list.splits option.splits)
  show "reconciler_inv (handleScanComplete parseDate scannedData s)" if "reconciler_inv s"
  proof (cases "isProcessingScan s")
    case True
    with that show ?thesis by (simp add: handleScanComplete_def)
  next
    case False
    with that have "timers s = []" by (simp add: reconciler_inv_def)
    with False show ?thesis
      by (cases scannedData)
         (simp_all add: reconciler_inv_def handleScanComplete_def scan_catch_def Let_def
            set_amount_fields set_date_fields)
  qed
qed

lemma fold_busy:
  "isProcessingScan s \<Longrightarrow> fold (handleScanComplete parseDate) ds s = s"
  by (induction ds) (simp_all add: handleScanComplete_busy)

text \<open>
  C5: once a first draft has put the form into the applying state (the flag
  \<^verbatim>\<open>isProcessingScan\<close> is set), every draft that arrives before the timer fires leaves the
  whole state as it is: no field is written, no toast shown, no callback queued. The state
  after the timer is the one the first draft alone produces.
\<close>

theorem drafts_dropped_while_applying:
  assumes "isProcessingScan (handleScanComplete parseDate first s)"
  shows "fold (handleScanComplete parseDate) later (handleScanComplete parseDate first s)
           = handleScanComplete parseDate first s \<and>
         fire_timer categories
           (fold (handleScanComplete parseDate) later (handleScanComplete parseDate first s))
           = fire_timer categories (handleScanComplete parseDate first s)"
  using assms by (simp add: fold_busy)

theorem drafts_dropped_while_applying_witness:
  "isProcessingScan (handleScanComplete iso_parseDate (ScanObj (example_draft ''food'')) example_form) \<and>
   fold (handleScanComplete iso_parseDate) [ScanObj (example_draft ''Foo''), ScanNonObject]
     (handleScanComplete iso_parseDate (ScanObj (example_draft ''food'')) example_form)
   = handleScanComplete iso_parseDate (ScanObj (example_draft ''food'')) example_form"
proof -
  have b: "isProcessingScan
             (handleScanComplete iso_parseDate (ScanObj (example_draft ''food'')) example_form)"
    by (simp add: form_eval js_eval)
  from b drafts_dropped_while_applying
            [OF b, where later = "[ScanObj (example_draft ''Foo''), ScanNonObject]",
             THEN conjunct1]
  show ?thesis by (rule conjI)
qed

text \<open>
  A draft whose description and category are text or absent, applied to an idle form.
  When \<^verbatim>\<open>handleScanComplete\<close> returns, the type is EXPENSE, the category is still
  untouched and the resolution is pending; when the timer has fired, the category is the
  id of a candidate of that type whose name matches, if there is one, and is empty
  otherwise, with a warning that names the unmatched suggestion, or that says the category
  is missing when there was none.
\<close>

lemma draft_sets_type_then_category:
  fixes parseDate :: "jsval \<Rightarrow> jsdate option" and categories :: "category list"
  assumes "\<not> isProcessingScan s" and "timers s = []"
      and "\<not> trim_throws (d ''description'')" and "\<not> trim_throws (d ''category'')"
  defines "s1 \<equiv> handleScanComplete parseDate (ScanObj d) s"
  defines "s2 \<equiv> fire_timer categories s1"
  defines "sug \<equiv> str_of (d ''category'')"
  shows "f_type s1 = EXPENSE \<and> isProcessingScan s1 \<and> timers s1 = [d] \<and>
         f_category s1 = f_category s \<and>
         f_type s2 = EXPENSE \<and> \<not> isProcessingScan s2 \<and> timers s2 = [] \<and>
         (\<not> truthy (d ''category'') \<or> js_trim sug = [] \<longrightarrow>
            f_category s2 = [] \<and> toasts s2 = toasts s1 @ [WarnCategoryMissing]) \<and>
         (truthy (d ''category'') \<and> js_trim sug \<noteq> [] \<and>
          \<not> (\<exists>c\<in>set categories. toLowerCase (c_name c) = toLowerCase sug \<and> c_type c = f_type s1) \<longrightarrow>
            f_category s2 = [] \<and> toasts s2 = toasts s1 @ [WarnCategoryUnmatched sug]) \<and>
         (truthy (d ''category'') \<and> js_trim sug \<noteq> [] \<and>
          (\<exists>c\<in>set categories. toLowerCase (c_name c) = toLowerCase sug \<and> c_type c = f_type s1) \<longrightarrow>
            (\<exists>c\<in>set categories. toLowerCase (c_name c) = toLowerCase sug \<and> c_type c = f_type s1 \<and>
                f_category s2 = c_id c))"
proof -
  note h = handleScanComplete_scheduled
             [where s = s and d = d and parseDate = parseDate, OF assms(1) assms(3)]
  have t1: "f_type s1 = EXPENSE" and b1: "isProcessingScan s1" and q1: "timers s1 = [d]"
    and c1: "f_category s1 = f_category s"
    using h assms(2) by (simp_all add: s1_def)
  have s2: "s2 = scan_callback categories d (s1\<lparr>timers := []\<rparr>)"
    by (simp add: s2_def fire_timer_def q1)
  have none: "find_category categories sug = None \<longleftrightarrow>
     \<not> (\<exists>c\<in>set categories. toLowerCase (c_name c) = toLowerCase sug \<and> c_type c = f_type s1)"
    by (simp add: find_category_None t1)
  have A: "f_type s2 = EXPENSE \<and> \<not> isProcessingScan s2 \<and> timers s2 = []"
    using assms(4) t1 by (simp add: s2 scan_callback_def sug_def split: option.splits)
  have B: "\<not> truthy (d ''category'') \<or> js_trim sug = [] \<longrightarrow>
            f_category s2 = [] \<and> toasts s2 = toasts s1 @ [WarnCategoryMissing]"
    using assms(4) by (auto simp: s2 scan_callback_def sug_def)
  have C: "truthy (d ''category'') \<and> js_trim sug \<noteq> [] \<and>
          \<not> (\<exists>c\<in>set categories. toLowerCase (c_name c) = toLowerCase sug \<and> c_type c = f_type s1) \<longrightarrow>
            f_category s2 = [] \<and> toasts s2 = toasts s1 @ [WarnCategoryUnmatched sug]"
    unfolding none [symmetric] using assms(4) by (auto simp: s2 scan_callback_def sug_def)
  have D: "truthy (d ''category'') \<and> js_trim sug \<noteq> [] \<and>
          (\<exists>c\<in>set categories. toLowerCase (c_name c) = toLowerCase sug \<and> c_type c = f_type s1) \<longrightarrow>
            (\<exists>c\<in>set categories. toLowerCase (c_name c) = toLowerCase sug \<and> c_type c = f_type s1 \<and>
                f_category s2 = c_id c)"
  proof (intro impI, elim conjE)
    assume tr: "truthy (d ''category'')" and nb: "js_trim sug \<noteq> []"
      and ex: "\<exists>c\<in>set categories. toLowerCase (c_name c) = toLowerCase sug \<and> c_type c = f_type s1"
    from ex none obtain c where f: "find_category categories sug = Some c" by auto
    from find_category_Some [OF f] have m: "c \<in> set categories"
      "toLowerCase (c_name c) = toLowerCase sug" "c_type c = f_type s1"
      by (simp_all add: t1)
    have "f_category s2 = c_id c"
      using assms(4) tr nb f by (simp add: s2 scan_callback_def sug_def)
    with m show "\<exists>c\<in>set categories. toLowerCase (c_name c) = toLowerCase sug \<and>
                    c_type c = f_type s1 \<and> f_category s2 = c_id c"
      by blast
  qed
  from t1 b1 q1 c1 A B C D show ?thesis by (intro conjI) simp_all
qed


lemma draft_sets_type_then_category_witness:
  "\<not> isProcessingScan example_form \<and> timers example_form = [] \<and>
   f_type example_form = INCOME \<and> f_category example_form = ''c2'' \<and>
   f_type (handleScanComplete iso_parseDate (ScanObj (example_draft ''Foo'')) example_form) = EXPENSE \<and>
   f_category (fire_timer example_categories
      (handleScanComplete iso_parseDate (ScanObj (example_draft ''Foo'')) example_form)) = [] \<and>
   toasts (fire_timer example_categories
      (handleScanComplete iso_parseDate (ScanObj (example_draft ''Foo'')) example_form))
     = [WarnCategoryUnmatched ''Foo''] \<and>
   f_category (fire_timer example_categories
      (handleScanComplete iso_parseDate (ScanObj (example_draft [])) example_form)) = [] \<and>
   toasts (fire_timer example_categories
      (handleScanComplete iso_parseDate (ScanObj (example_draft [])) example_form))
     = [WarnCategoryMissing] \<and>
   f_category (fire_timer example_categories
      (handleScanComplete iso_parseDate (ScanObj (example_draft ''FOOD'')) example_form)) = ''c1''"
proof -
  have a: "\<not> isProcessingScan example_form" "timers example_form = []"
    and b: "f_type example_form = INCOME" "f_category example_form = ''c2''"
    by (simp_all add: example_form_def mount_def type_effect_def)
  have c: "\<not> trim_throws (example_draft x ''description'')"
          "\<not> trim_throws (example_draft x ''category'')" for x
    by (simp_all add: example_draft_def)
  have t: "toasts (handleScanComplete iso_parseDate (ScanObj (example_draft x)) example_form) = []"
    for x
    by (simp add: form_eval js_eval)
  have e: "f_type (handleScanComplete iso_parseDate (ScanObj (example_draft x)) example_form)
             = EXPENSE" for x
    using handleScanComplete_scheduled
            [where s = example_form and parseDate = iso_parseDate and d = "example_draft x",
             OF a(1) c(1)]
    by simp
  note T = draft_sets_type_then_category
         [where s = example_form and parseDate = iso_parseDate
            and categories = example_categories, OF a]
  have n: "truthy (example_draft ''Foo'' ''category'') \<and>
           js_trim (str_of (example_draft ''Foo'' ''category'')) \<noteq> [] \<and>
           \<not> (\<exists>c\<in>set example_categories.
                 toLowerCase (c_name c) = toLowerCase (str_of (example_draft ''Foo'' ''category'')) \<and>
                 c_type c = EXPENSE)"
    by (simp add: example_draft_def example_categories_def toLowerCase_def lower_char_def js_eval)
  from T [where d = "example_draft ''Foo''", OF c] n t
  have 1: "f_type (handleScanComplete iso_parseDate (ScanObj (example_draft ''Foo'')) example_form) = EXPENSE \<and>
   f_category (fire_timer example_categories
      (handleScanComplete iso_parseDate (ScanObj (example_draft ''Foo'')) example_form)) = [] \<and>
   toasts (fire_timer example_categories
      (handleScanComplete iso_parseDate (ScanObj (example_draft ''Foo'')) example_form))
     = [WarnCategoryUnmatched ''Foo'']"
    by (simp add: example_draft_def)
  have m: "\<not> truthy (example_draft [] ''category'')"
    by (simp add: example_draft_def)
  from T [where d = "example_draft []", OF c] m t
  have 2: "f_category (fire_timer example_categories
      (handleScanComplete iso_parseDate (ScanObj (example_draft [])) example_form)) = [] \<and>
   toasts (fire_timer example_categories
      (handleScanComplete iso_parseDate (ScanObj (example_draft [])) example_form))
     = [WarnCategoryMissing]"
    by simp
  have 3: "f_category (fire_timer example_categories
      (handleScanComplete iso_parseDate (ScanObj (example_draft ''FOOD'')) example_form)) = ''c1''"
    using T [where d = "example_draft ''FOOD''", OF c, unfolded e]
    by (simp add: example_draft_def example_categories_def toLowerCase_def lower_char_def js_eval)
  from a b 1 2 3 show ?thesis by simp
qed

text \<open>
  C4, where the code departs from the claim. The claim has the category cleared, with an
  advisory, whenever the suggestion is unresolved. \<^verbatim>\<open>scanReceipt\<close> passes a truthy
  category of any type on; when it is no string (here a list) \<^verbatim>\<open>trim\<close> throws in
  the timer callback, which runs outside the \<^verbatim>\<open>try\<close>. The form then has the type EXPENSE
  and still the category it had before, an INCOME category; no toast is shown, and the
  flag \<^verbatim>\<open>isProcessingScan\<close> stays set although nothing is pending.
\<close>

theorem list_category_left_stale:
  "f_type example_form = INCOME \<and> f_category example_form = ''c2'' \<and>
   truthy (example_draft_list ''category'') \<and>
   f_type (fire_timer example_categories (type_effect
      (handleScanComplete iso_parseDate (ScanObj example_draft_list) example_form))) = EXPENSE \<and>
   f_category (fire_timer example_categories (type_effect
      (handleScanComplete iso_parseDate (ScanObj example_draft_list) example_form))) = ''c2'' \<and>
   toasts (fire_timer example_categories (type_effect
      (handleScanComplete iso_parseDate (ScanObj example_draft_list) example_form))) = [] \<and>
   timers (fire_timer example_categories (type_effect
      (handleScanComplete iso_parseDate (ScanObj example_draft_list) example_form))) = [] \<and>
   isProcessingScan (fire_timer example_categories (type_effect
      (handleScanComplete iso_parseDate (ScanObj example_draft_list) example_form)))"
  by (simp add: form_eval js_eval stuck_eval)

text \<open>
  C7, as the code has it. The claim filters the candidates by the type of the
  transaction. The callback filters by the constant EXPENSE: when the user picks INCOME
  between the scan and the timer, the form ends with the type INCOME and the category
  \<^verbatim>\<open>c1\<close>, an EXPENSE category.
\<close>

theorem category_resolution_counterexample:
  "f_type (fire_timer example_categories (user_set_type INCOME (type_effect
      (handleScanComplete iso_parseDate (ScanObj (example_draft ''Food'')) example_form)))) = INCOME \<and>
   f_category (fire_timer example_categories (user_set_type INCOME (type_effect
      (handleScanComplete iso_parseDate (ScanObj (example_draft ''Food'')) example_form)))) = ''c1'' \<and>
   find_category example_categories ''Food''
     = Some \<lparr>c_id = ''c1'', c_name = ''Food'', c_type = EXPENSE\<rparr>"
  by (simp add: form_eval js_eval)

text \<open>
  C7 (amended): the resolution considers the candidates of type EXPENSE, whatever the type
  of the form, and leaves that type as it is. For a suggestion that is text or absent: a
  suggestion that is not blank and equals, letter case aside, the whole name of an EXPENSE
  candidate gives the id of such a candidate; an absent, empty or blank suggestion, and one
  that no EXPENSE candidate matches, give the empty category.
\<close>

theorem category_resolution_expense:
  fixes categories :: "category list" and s :: form_state
  assumes "\<not> trim_throws (d ''category'')"
  defines "sug \<equiv> str_of (d ''category'')"
  defines "s' \<equiv> scan_callback categories d s"
  shows "f_type s' = f_type s \<and>
         (truthy (d ''category'') \<and> js_trim sug \<noteq> [] \<and>
          (\<exists>c\<in>set categories. c_type c = EXPENSE \<and> toLowerCase (c_name c) = toLowerCase sug) \<longrightarrow>
            (\<exists>c\<in>set categories. c_type c = EXPENSE \<and>
                toLowerCase (c_name c) = toLowerCase sug \<and> f_category s' = c_id c)) \<and>
         (\<not> truthy (d ''category'') \<or> js_trim sug = [] \<or>
          \<not> (\<exists>c\<in>set categories. c_type c = EXPENSE \<and> toLowerCase (c_name c) = toLowerCase sug) \<longrightarrow>
            f_category s' = [])"
proof -
  have none: "find_category categories sug = None \<longleftrightarrow>
     \<not> (\<exists>c\<in>set categories. c_type c = EXPENSE \<and> toLowerCase (c_name c) = toLowerCase sug)"
    unfolding find_category_None by blast
  have T: "f_type s' = f_type s" by (simp add: s'_def scan_callback_keeps)
  have A: "truthy (d ''category'') \<and> js_trim sug \<noteq> [] \<and>
          (\<exists>c\<in>set categories. c_type c = EXPENSE \<and> toLowerCase (c_name c) = toLowerCase sug) \<longrightarrow>
            (\<exists>c\<in>set categories. c_type c = EXPENSE \<and>
                toLowerCase (c_name c) = toLowerCase sug \<and> f_category s' = c_id c)"
  proof (intro impI, elim conjE)
    assume tr: "truthy (d ''category'')" and nb: "js_trim sug \<noteq> []"
      and ex: "\<exists>c\<in>set categories. c_type c = EXPENSE \<and> toLowerCase (c_name c) = toLowerCase sug"
    from ex none obtain c where f: "find_category categories sug = Some c" by auto
    from find_category_Some [OF f] have m: "c \<in> set categories"
      "toLowerCase (c_name c) = toLowerCase sug" "c_type c = EXPENSE"
      by simp_all
    have "f_category s' = c_id c"
      using assms(1) tr nb f by (simp add: s'_def scan_callback_def sug_def)
    with m show "\<exists>c\<in>set categories. c_type c = EXPENSE \<and>
                    toLowerCase (c_name c) = toLowerCase sug \<and> f_category s' = c_id c"
      by blast
  qed
  have B: "\<not> truthy (d ''category'') \<or> js_trim sug = [] \<or>
          \<not> (\<exists>c\<in>set categories. c_type c = EXPENSE \<and> toLowerCase (c_name c) = toLowerCase sug) \<longrightarrow>
            f_category s' = []"
    unfolding none [symmetric] using assms(1) by (auto simp: s'_def scan_callback_def sug_def)
  from T A B show ?thesis by (intro conjI)
qed

theorem category_resolution_expense_witness:
  "f_category (scan_callback example_categories (example_draft ''Food'') example_form) = ''c1'' \<and>
   f_category (scan_callback example_categories (example_draft ''food'') example_form) = ''c1'' \<and>
   f_category (scan_callback example_categories (example_draft ''Foo'') example_form) = [] \<and>
   f_category (scan_callback example_categories (example_draft []) example_form) = [] \<and>
   f_category example_form = ''c2''"
proof -
  have c: "\<not> trim_throws (example_draft x ''category'')" for x
    by (simp add: example_draft_def)
  note r = category_resolution_expense
             [where categories = example_categories and s = example_form]
  have "f_category (scan_callback example_categories (example_draft ''Food'') example_form) = ''c1''"
    using r [where d = "example_draft ''Food''", OF c]
    by (simp add: example_draft_def example_categories_def toLowerCase_def lower_char_def js_eval)
  moreover
  have "f_category (scan_callback example_categories (example_draft ''food'') example_form) = ''c1''"
    using r [where d = "example_draft ''food''", OF c]
    by (simp add: example_draft_def example_categories_def toLowerCase_def lower_char_def js_eval)
  moreover
  have "f_category (scan_callback example_categories (example_draft ''Foo'') example_form) = []"
    using r [where d = "example_draft ''Foo''", OF c]
    by (simp add: example_draft_def example_categories_def toLowerCase_def lower_char_def js_eval)
  moreover
  have "f_category (scan_callback example_categories (example_draft []) example_form) = []"
    using r [where d = "example_draft []", OF c]
    by (simp add: example_draft_def)
  moreover have "f_category example_form = ''c2''"
    by (simp add: example_form_def mount_def type_effect_def)
  ultimately show ?thesis by simp
qed

lemma type_effect_busy:
  "isProcessingScan s \<Longrightarrow> type_effect s = s\<lparr>prevTypeRef := Some (f_type s)\<rparr>"
  by (simp add: type_effect_def)

lemma type_effect_settled:
  "prevTypeRef s = Some (f_type s) \<Longrightarrow> f_category (type_effect s) = f_category s"
  by (simp add: type_effect_def)

lemma fire_timer_prevTypeRef:
  "fire_timer cats (s\<lparr>prevTypeRef := p\<rparr>) = (fire_timer cats s)\<lparr>prevTypeRef := p\<rparr>"
  by (simp add: fire_timer_def scan_callback_def split: list.splits option.splits)

lemma fire_timer_f_type: "f_type (fire_timer cats s) = f_type s"
  by (simp add: fire_timer_def scan_callback_keeps split: list.splits)

text \<open>
  The effect on the type. Mounting the form keeps its category. A change of type by the
  user clears the category when the flag \<^verbatim>\<open>isProcessingScan\<close> is unset and leaves it
  alone while it is set; the effect that follows the reconciler's own write of the type,
  and the one after the timer, leave the category the reconciler resolved.
\<close>

lemma type_change_clears_category:
  fixes parseDate :: "jsval \<Rightarrow> jsdate option" and categories :: "category list"
  shows "f_category (mount ty am de ca da) = ca \<and>
         (isProcessingScan s \<longrightarrow> f_category (user_set_type t s) = f_category s) \<and>
         (\<not> isProcessingScan s \<and> prevTypeRef s = Some (f_type s) \<and> t \<noteq> f_type s \<longrightarrow>
            f_category (user_set_type t s) = [] \<and> f_type (user_set_type t s) = t) \<and>
         (\<not> isProcessingScan s \<and> \<not> trim_throws (d ''description'') \<longrightarrow>
            f_category (type_effect (fire_timer categories
                          (type_effect (handleScanComplete parseDate (ScanObj d) s))))
            = f_category (fire_timer categories (handleScanComplete parseDate (ScanObj d) s)))"
proof -
  have A: "f_category (mount ty am de ca da) = ca"
    by (simp add: mount_def type_effect_def)
  have B: "isProcessingScan s \<longrightarrow> f_category (user_set_type t s) = f_category s"
    by (simp add: user_set_type_def type_effect_def)
  have C: "\<not> isProcessingScan s \<and> prevTypeRef s = Some (f_type s) \<and> t \<noteq> f_type s \<longrightarrow>
            f_category (user_set_type t s) = [] \<and> f_type (user_set_type t s) = t"
    by (auto simp: user_set_type_def type_effect_def)
  have D: "\<not> isProcessingScan s \<and> \<not> trim_throws (d ''description'') \<longrightarrow>
            f_category (type_effect (fire_timer categories
                          (type_effect (handleScanComplete parseDate (ScanObj d) s))))
            = f_category (fire_timer categories (handleScanComplete parseDate (ScanObj d) s))"
  proof (intro impI, elim conjE)
    assume a: "\<not> isProcessingScan s" "\<not> trim_throws (d ''description'')"
    let ?s1 = "handleScanComplete parseDate (ScanObj d) s"
    note h = handleScanComplete_scheduled
               [where s = s and d = d and parseDate = parseDate, OF a]
    have e: "type_effect ?s1 = ?s1\<lparr>prevTypeRef := Some EXPENSE\<rparr>"
      using h by (simp add: type_effect_busy)
    have f: "fire_timer categories (type_effect ?s1)
               = (fire_timer categories ?s1)\<lparr>prevTypeRef := Some EXPENSE\<rparr>"
      by (simp add: e fire_timer_prevTypeRef)
    have "f_type (fire_timer categories ?s1) = EXPENSE"
      using h by (simp add: fire_timer_f_type)
    then have "prevTypeRef (fire_timer categories (type_effect ?s1))
                 = Some (f_type (fire_timer categories (type_effect ?s1)))"
      by (simp add: f)
    from type_effect_settled [OF this]
    show "f_category (type_effect (fire_timer categories (type_effect ?s1)))
            = f_category (fire_timer categories ?s1)"
      by (simp add: f)
  qed
  from A B C D show ?thesis by (intro conjI)
qed

lemma type_change_clears_category_witness:
  "f_category (mount EXPENSE (AmountText []) [] ''c1'' \<lparr>year = 2025, month = 5, day = 1\<rparr>) = ''c1'' \<and>
   f_category (user_set_type INCOME
      (mount EXPENSE (AmountText []) [] ''c1'' \<lparr>year = 2025, month = 5, day = 1\<rparr>)) = [] \<and>
   f_category (user_set_type INCOME
      (handleScanComplete iso_parseDate (ScanObj (example_draft ''food'')) example_form)) = ''c2'' \<and>
   f_category (type_effect (fire_timer example_categories
      (type_effect (handleScanComplete iso_parseDate (ScanObj (example_draft ''food'')) example_form))))
     = ''c1''"
proof -
  let ?m = "mount EXPENSE (AmountText []) [] ''c1'' \<lparr>year = 2025, month = 5, day = 1\<rparr>"
  let ?s1 = "handleScanComplete iso_parseDate (ScanObj (example_draft ''food'')) example_form"
  have m: "\<not> isProcessingScan ?m \<and> prevTypeRef ?m = Some (f_type ?m) \<and> INCOME \<noteq> f_type ?m"
    by (simp add: mount_def type_effect_def)
  have b: "isProcessingScan ?s1" "f_category ?s1 = ''c2''"
    by (simp_all add: form_eval js_eval)
  have i: "\<not> isProcessingScan example_form \<and> \<not> trim_throws (example_draft ''food'' ''description'')"
    by (simp add: example_form_def mount_def type_effect_def example_draft_def)
  have r: "f_category (fire_timer example_categories ?s1) = ''c1''"
    by (simp add: form_eval js_eval)
  note T = type_change_clears_category
  have "f_category ?m = ''c1''"
    using T [of EXPENSE "AmountText []" "[]" "''c1''" "\<lparr>year = 2025, month = 5, day = 1\<rparr>"]
    by simp
  moreover have "f_category (user_set_type INCOME ?m) = []"
    using T [where s = ?m and t = INCOME] m by simp
  moreover have "f_category (user_set_type INCOME ?s1) = ''c2''"
    using T [where s = ?s1 and t = INCOME] b by simp
  moreover have "f_category (type_effect (fire_timer example_categories (type_effect ?s1))) = ''c1''"
    using T [where s = example_form and d = "example_draft ''food''"
               and parseDate = iso_parseDate and categories = example_categories] i r
    by simp
  ultimately show ?thesis by simp
qed

text \<open>
  C6, where the code departs from the claim. The claim has the category cleared whenever
  the user changes the type while no draft is being applied. After the callback has
  thrown on a category that is no string, no draft is pending, yet the flag
  \<^verbatim>\<open>isProcessingScan\<close> is still set (the callback unsets it in its last statement only):
  the user's change from EXPENSE to INCOME leaves the EXPENSE category in place.
\<close>

theorem type_change_after_failed_callback:
  "timers example_stuck_form = [] \<and> isProcessingScan example_stuck_form \<and>
   f_type example_stuck_form = EXPENSE \<and> f_category example_stuck_form = ''c1'' \<and>
   f_type (user_set_type INCOME example_stuck_form) = INCOME \<and>
   f_category (user_set_type INCOME example_stuck_form) = ''c1''"
  by (simp add: form_eval js_eval stuck_eval)

end
